theory Spec2Isabelle
  imports Complex_Main "HOL-Library.Word"
begin

unbundle bit_operations_syntax

section \<open>Errors\<close>

text \<open>
  The helper functions of the notebook raise Python exceptions. Each kind that the
  functions modelled here can raise is a constructor:
  \<^item> \<open>OutOfBounds f\<close>: \<^verbatim>\<open>ValueError("f values are out-of-bounds!")\<close>, raised by
    \<^verbatim>\<open>sdss_objid\<close>;
  \<^item> \<open>NoField f\<close>: the \<^verbatim>\<open>ValueError\<close> of numpy when a structured array is indexed
    with a field name \<open>f\<close> that its dtype does not have;
  \<^item> \<open>DuplicateField\<close>: the \<^verbatim>\<open>ValueError\<close> of numpy when a structured dtype is built
    from a list that names a field twice;
  \<^item> \<open>TupleLength k n\<close>: the \<^verbatim>\<open>ValueError\<close> of numpy when a tuple of \<open>k\<close> values is
    stored into a structure with \<open>n\<close> fields;
  \<^item> \<open>ShapeMismatch\<close>: the \<^verbatim>\<open>ValueError\<close> of numpy when a column is assigned an array
    of another shape;
  \<^item> \<open>IndexError\<close>: indexing the empty string (\<^verbatim>\<open>bands[0]\<close>);
  \<^item> \<open>KeyError k\<close>: a dictionary has no key \<open>k\<close>.
\<close>

datatype error =
    OutOfBounds string
  | NoField string
  | DuplicateField
  | TupleLength nat nat
  | ShapeMismatch
  | IndexError
  | KeyError string

section \<open>The object identifier: \<^verbatim>\<open>sdss_objid\<close>\<close>

text \<open>
  The catalogue columns are 64-bit integer columns. An \<open>int64\<close> is its bit pattern,
  read as a value by \<^const>\<open>sint\<close>; a \<open>uint64\<close> is read by \<^const>\<open>uint\<close>.
\<close>

type_synonym int64 = "64 word"
type_synonym uint64 = "64 word"

record catalog_row =
  rerun :: int64
  run :: int64
  camcol :: int64
  field :: int64
  objnum :: int64   \<comment> \<open>the column \<^verbatim>\<open>id\<close>\<close>

text \<open>\<^verbatim>\<open>x.astype(np.uint64)\<close>: the value is wrapped into 64 unsigned bits.\<close>

definition astype_uint64 :: "int64 \<Rightarrow> uint64" where
  "astype_uint64 x = word_of_int (sint x)"

text \<open>
  \<^verbatim>\<open>np.array(list(map(int, col.tolist())), dtype=np.uint64)\<close>: every element becomes a
  Python integer and is stored as an unsigned 64-bit value (a negative one wraps around).
\<close>

definition array_uint64 :: "int list \<Rightarrow> uint64 list" where
  "array_uint64 xs = map word_of_int xs"

text \<open>Elementwise operations on arrays of the same shape.\<close>

definition shl :: "uint64 list \<Rightarrow> nat \<Rightarrow> uint64 list" where
  "shl xs n = map (push_bit n) xs"

definition bor :: "uint64 list \<Rightarrow> uint64 list \<Rightarrow> uint64 list" where
  "bor xs ys = map2 (OR) xs ys"

text \<open>\<^verbatim>\<open>((x < lo) | (x >= hi)).any()\<close> and \<^verbatim>\<open>((x < lo) | (x > hi)).any()\<close>.\<close>

definition any_lt_or_ge :: "uint64 list \<Rightarrow> uint64 \<Rightarrow> uint64 \<Rightarrow> bool" where
  "any_lt_or_ge xs lo hi = list_ex (\<lambda>x. x < lo \<or> x \<ge> hi) xs"

definition any_lt_or_gt :: "uint64 list \<Rightarrow> uint64 \<Rightarrow> uint64 \<Rightarrow> bool" where
  "any_lt_or_gt xs lo hi = list_ex (\<lambda>x. x < lo \<or> x > hi) xs"

definition sdss_objid :: "catalog_row list \<Rightarrow> error + uint64 list" where
  "sdss_objid data =
    (let skyversion = map (\<lambda>z. z + 2) (replicate (length data) 0);
         rerun = array_uint64 (map (\<lambda>r. sint (rerun r)) data);
         run = map (\<lambda>r. astype_uint64 (run r)) data;
         camcol = map (\<lambda>r. astype_uint64 (camcol r)) data;
         firstfield = replicate (length data) 0;
         field = map (\<lambda>r. astype_uint64 (field r)) data;
         objnum = map (\<lambda>r. astype_uint64 (objnum r)) data
     in if any_lt_or_ge skyversion 0 16 then Inl (OutOfBounds ''skyversion'')
        else if any_lt_or_ge rerun 0 (2 ^ 11) then Inl (OutOfBounds ''rerun'')
        else if any_lt_or_ge run 0 (2 ^ 16) then Inl (OutOfBounds ''run'')
        else if any_lt_or_gt camcol 1 6 then Inl (OutOfBounds ''camcol'')
        else if any_lt_or_ge field 0 (2 ^ 12) then Inl (OutOfBounds ''field'')
        else if any_lt_or_ge objnum 0 (2 ^ 16) then Inl (OutOfBounds ''id'')
        else Inr (bor (bor (bor (bor (bor (bor (shl skyversion 59)
                                               (shl rerun 48))
                                          (shl run 32))
                                     (shl camcol 29))
                                (shl firstfield 28))
                           (shl field 16))
                      objnum))"

text \<open>
  The documented ranges of the five columns, on the values of a row:
  \<open>rerun\<close> in \<open>[0, 2^11)\<close>, \<open>run\<close> in \<open>[0, 2^16)\<close>, \<open>camcol\<close> in \<open>[1, 6]\<close>,
  \<open>field\<close> in \<open>[0, 2^12)\<close> and \<open>id\<close> in \<open>[0, 2^16)\<close>.
\<close>

definition rerun_ok :: "catalog_row \<Rightarrow> bool" where
  "rerun_ok r = (0 \<le> sint (rerun r) \<and> sint (rerun r) < 2 ^ 11)"

definition run_ok :: "catalog_row \<Rightarrow> bool" where
  "run_ok r = (0 \<le> sint (run r) \<and> sint (run r) < 2 ^ 16)"

definition camcol_ok :: "catalog_row \<Rightarrow> bool" where
  "camcol_ok r = (1 \<le> sint (camcol r) \<and> sint (camcol r) \<le> 6)"

definition field_ok :: "catalog_row \<Rightarrow> bool" where
  "field_ok r = (0 \<le> sint (field r) \<and> sint (field r) < 2 ^ 12)"

definition objnum_ok :: "catalog_row \<Rightarrow> bool" where
  "objnum_ok r = (0 \<le> sint (objnum r) \<and> sint (objnum r) < 2 ^ 16)"

definition in_range :: "catalog_row \<Rightarrow> bool" where
  "in_range r = (rerun_ok r \<and> run_ok r \<and> camcol_ok r \<and> field_ok r \<and> objnum_ok r)"

text \<open>The bits \<open>lo, ..., lo + n - 1\<close> of an identifier, as a number.\<close>

definition bits :: "nat \<Rightarrow> nat \<Rightarrow> uint64 \<Rightarrow> int" where
  "bits lo n w = uint (take_bit n (drop_bit lo w))"

text \<open>
  The identifier that the documented layout gives one row: sky version 2 in bits 59-62,
  \<open>rerun\<close> from bit 48, \<open>run\<close> from bit 32, \<open>camcol\<close> from bit 29, the first-field flag 0
  in bit 28, \<open>field\<close> from bit 16 and \<open>id\<close> from bit 0.
\<close>

definition layout :: "catalog_row \<Rightarrow> uint64" where
  "layout r = push_bit 59 2 OR push_bit 48 (rerun r) OR push_bit 32 (run r) OR
              push_bit 29 (camcol r) OR push_bit 28 0 OR push_bit 16 (field r) OR objnum r"

text \<open>The known example of the specification, and the row of the largest valid values.\<close>

definition known_example :: catalog_row where
  "known_example = \<lparr>rerun = 301, run = 6122, camcol = 1, field = 13, objnum = 1\<rparr>"

definition all_max :: catalog_row where
  "all_max = \<lparr>rerun = 2047, run = 65535, camcol = 6, field = 4095, objnum = 65535\<rparr>"

section \<open>Structured arrays of floating-point columns\<close>

text \<open>
  The photometric functions read and write numpy structured arrays: a dtype (the list of
  field names) and one record per row. A record gives every field name a value; only the
  names of the dtype are fields of the array. Floating-point numbers are modelled as real
  numbers, and numpy's operations on them as the exact operations: the model says which
  expression is evaluated on which fields and constants, and nothing about rounding,
  overflow or the distinctness of rounded results.
\<close>

record ndarray =
  names :: "string list"
  rows :: "(string \<Rightarrow> real) list"

text \<open>\<^verbatim>\<open>a[f]\<close>: the column of field \<open>f\<close>.\<close>

definition getfield :: "ndarray \<Rightarrow> string \<Rightarrow> error + real list" where
  "getfield a f =
    (if f \<in> set (names a) then Inr (map (\<lambda>r. r f) (rows a)) else Inl (NoField f))"

text \<open>\<^verbatim>\<open>a[f] = v\<close>: the column of field \<open>f\<close> is overwritten with an array of the same shape.\<close>

definition setfield :: "ndarray \<Rightarrow> string \<Rightarrow> real list \<Rightarrow> error + ndarray" where
  "setfield a f v =
    (if f \<notin> set (names a) then Inl (NoField f)
     else if length v \<noteq> length (rows a) then Inl ShapeMismatch
     else Inr (a\<lparr>rows := map2 (\<lambda>r x. r(f := x)) (rows a) v\<rparr>))"

text \<open>A structured dtype from a list of field names: numpy refuses a repeated name.\<close>

definition np_dtype :: "string list \<Rightarrow> error + string list" where
  "np_dtype fs = (if distinct fs then Inr fs else Inl DuplicateField)"

text \<open>\<^verbatim>\<open>np.zeros(shape, dtype=fs)\<close> for a one-dimensional shape of \<open>n\<close> rows.\<close>

definition np_zeros :: "nat \<Rightarrow> string list \<Rightarrow> error + ndarray" where
  "np_zeros n fs =
    (case np_dtype fs of
       Inl e \<Rightarrow> Inl e
     | Inr d \<Rightarrow> Inr \<lparr>names = d, rows = replicate n (\<lambda>f. 0)\<rparr>)"

text \<open>
  \<^verbatim>\<open>np.array([tup], dtype=fs)\<close>: one record, whose fields take the values of the tuple
  by position; the tuple must have as many values as the dtype has fields. The one-row
  array is kept as the table of its fields: in an expression with a column, its field
  broadcasts like a scalar.
\<close>

definition np_record :: "real list \<Rightarrow> string list \<Rightarrow> error + (string \<times> real) list" where
  "np_record tup fs =
    (case np_dtype fs of
       Inl e \<Rightarrow> Inl e
     | Inr d \<Rightarrow> if length tup \<noteq> length d then Inl (TupleLength (length tup) (length d))
               else Inr (zip d tup))"

definition record_field :: "(string \<times> real) list \<Rightarrow> string \<Rightarrow> error + real" where
  "record_field b f = (case map_of b f of None \<Rightarrow> Inl (NoField f) | Some x \<Rightarrow> Inr x)"

section \<open>Asinh magnitudes: \<^verbatim>\<open>asinh_mag\<close> and \<^verbatim>\<open>asinh_image\<close>\<close>

text \<open>The loop \<^verbatim>\<open>for i, band in enumerate(bands)\<close> of \<^verbatim>\<open>asinh_mag\<close>, on the array \<open>mag\<close>.\<close>

fun band_loop ::
  "ndarray \<Rightarrow> string \<Rightarrow> (string \<times> real) list \<Rightarrow> bool \<Rightarrow> string \<Rightarrow> ndarray \<Rightarrow> error + ndarray"
where
  "band_loop data magtype b deredden [] mag = Inr mag"
| "band_loop data magtype b deredden (band # rest) mag =
    (case getfield data (magtype @ ''flux_'' @ [band]) of
       Inl e \<Rightarrow> Inl e
     | Inr flux \<Rightarrow>
    (case record_field b [band] of
       Inl e \<Rightarrow> Inl e
     | Inr bb \<Rightarrow>
    (case setfield mag (magtype @ ''mag_'' @ [band])
            (map (\<lambda>f. (- 2.5 / ln 10) * (arsinh ((f * (1.0 / 10 ^ 9)) / (2.0 * bb)) + ln bb)) flux) of
       Inl e \<Rightarrow> Inl e
     | Inr mag1 \<Rightarrow>
       if deredden then
         (case getfield mag1 (magtype @ ''mag_'' @ [band]) of
            Inl e \<Rightarrow> Inl e
          | Inr cur \<Rightarrow>
         (case getfield data (''extinction_'' @ [band]) of
            Inl e \<Rightarrow> Inl e
          | Inr ext \<Rightarrow>
         (case setfield mag1 (magtype @ ''mag_'' @ [band]) (map2 (-) cur ext) of
            Inl e \<Rightarrow> Inl e
          | Inr mag2 \<Rightarrow> band_loop data magtype b deredden rest mag2)))
       else band_loop data magtype b deredden rest mag1)))"

definition asinh_mag :: "ndarray \<Rightarrow> string \<Rightarrow> string \<Rightarrow> bool \<Rightarrow> error + ndarray" where
  "asinh_mag data magtype bands deredden =
    (case bands of
       [] \<Rightarrow> Inl IndexError
     | band0 # _ \<Rightarrow>
    (case getfield data (magtype @ ''flux_'' @ [band0]) of
       Inl e \<Rightarrow> Inl e
     | Inr dt \<Rightarrow>
    (case np_record [1.4 / 10 ^ 10, 0.9 / 10 ^ 10, 1.2 / 10 ^ 10, 1.8 / 10 ^ 10, 7.4 / 10 ^ 10]
            (map (\<lambda>band. [band]) bands) of
       Inl e \<Rightarrow> Inl e
     | Inr b \<Rightarrow>
    (case np_zeros (length (rows data)) (map (\<lambda>band. magtype @ ''mag_'' @ [band]) bands) of
       Inl e \<Rightarrow> Inl e
     | Inr mag \<Rightarrow> band_loop data magtype b deredden bands mag))))"


text \<open>
  The documented conversion, for one flux value and a softening parameter \<open>b\<close>, and the
  documented softening parameter of each band.
\<close>

definition luptitude :: "real \<Rightarrow> real \<Rightarrow> real" where
  "luptitude b flux = (- 2.5 / ln 10) * (arsinh (flux * (1 / 10 ^ 9) / (2 * b)) + ln b)"

definition softening :: "char \<Rightarrow> real" where
  "softening band =
    (if band = CHR ''u'' then 1.4 / 10 ^ 10
     else if band = CHR ''g'' then 0.9 / 10 ^ 10
     else if band = CHR ''r'' then 1.2 / 10 ^ 10
     else if band = CHR ''i'' then 1.8 / 10 ^ 10
     else if band = CHR ''z'' then 7.4 / 10 ^ 10
     else 0)"

text \<open>
  The table \<open>b\<close> that \<^verbatim>\<open>asinh_mag\<close> builds for a string of bands: the five constants, in
  their fixed order, under the band names in the order of \<open>bands\<close>.
\<close>

definition b_consts :: "real list" where
  "b_consts = [1.4 / 10 ^ 10, 0.9 / 10 ^ 10, 1.2 / 10 ^ 10, 1.8 / 10 ^ 10, 7.4 / 10 ^ 10]"

definition b_table :: "string \<Rightarrow> (string \<times> real) list" where
  "b_table bands = zip (map (\<lambda>band. [band]) bands) b_consts"

text \<open>
  One pass of the loop on one row: the value that the pass for \<open>band\<close> stores, from the row
  \<open>rd\<close> of the input, and the row \<open>rm\<close> of \<open>mag\<close> after the pass. A pass can run when the
  fields it reads and writes exist.
\<close>

definition band_value ::
  "string \<Rightarrow> (string \<times> real) list \<Rightarrow> bool \<Rightarrow> (string \<Rightarrow> real) \<Rightarrow> char \<Rightarrow> real" where
  "band_value magtype b deredden rd band =
     luptitude (case map_of b [band] of None \<Rightarrow> 0 | Some bb \<Rightarrow> bb) (rd (magtype @ ''flux_'' @ [band]))
       - (if deredden then rd (''extinction_'' @ [band]) else 0)"

definition band_update ::
  "string \<Rightarrow> (string \<times> real) list \<Rightarrow> bool \<Rightarrow> (string \<Rightarrow> real) \<Rightarrow> char \<Rightarrow> (string \<Rightarrow> real) \<Rightarrow> (string \<Rightarrow> real)" where
  "band_update magtype b deredden rd band rm =
     rm(magtype @ ''mag_'' @ [band] := band_value magtype b deredden rd band)"

definition loop_ready ::
  "ndarray \<Rightarrow> string \<Rightarrow> (string \<times> real) list \<Rightarrow> bool \<Rightarrow> ndarray \<Rightarrow> char \<Rightarrow> bool" where
  "loop_ready data magtype b deredden mag band =
     (magtype @ ''flux_'' @ [band] \<in> set (names data) \<and> map_of b [band] \<noteq> None \<and>
      magtype @ ''mag_'' @ [band] \<in> set (names mag) \<and>
      (deredden \<longrightarrow> ''extinction_'' @ [band] \<in> set (names data)))"

text \<open>An input of one object whose model flux is zero in the five bands, with no other column.\<close>

definition zero_flux :: ndarray where
  "zero_flux = \<lparr>names = [''modelflux_u'', ''modelflux_g'', ''modelflux_r'', ''modelflux_i'',
                          ''modelflux_z''],
                 rows = [\<lambda>f. 0]\<rparr>"

section \<open>Auxiliary colours: \<^verbatim>\<open>auxilliary_colors\<close>\<close>

text \<open>Elementwise arithmetic on columns of the same shape, and with a scalar.\<close>

definition vsub :: "real list \<Rightarrow> real list \<Rightarrow> real list" where
  "vsub xs ys = map2 (-) xs ys"

definition vadd :: "real list \<Rightarrow> real list \<Rightarrow> real list" where
  "vadd xs ys = map2 (+) xs ys"

definition smul :: "real \<Rightarrow> real list \<Rightarrow> real list" where
  "smul c xs = map (\<lambda>x. c * x) xs"

definition ssub :: "real list \<Rightarrow> real \<Rightarrow> real list" where
  "ssub xs c = map (\<lambda>x. x - c) xs"

definition sdiv :: "real list \<Rightarrow> real \<Rightarrow> real list" where
  "sdiv xs c = map (\<lambda>x. x / c) xs"

definition auxilliary_colors :: "ndarray \<Rightarrow> string \<Rightarrow> error + ndarray" where
  "auxilliary_colors data bands =
    (case bands of
       [] \<Rightarrow> Inl IndexError
     | band0 # _ \<Rightarrow>
    (case getfield data (''modelmag_'' @ [band0]) of
       Inl e \<Rightarrow> Inl e
     | Inr dt \<Rightarrow>
    (case np_zeros (length (rows data)) [''c_par'', ''c_perp'', ''d_perp''] of
       Inl e \<Rightarrow> Inl e
     | Inr aux \<Rightarrow>
    (case getfield data ''modelmag_g'' of
       Inl e \<Rightarrow> Inl e
     | Inr g \<Rightarrow>
    (case getfield data ''modelmag_r'' of
       Inl e \<Rightarrow> Inl e
     | Inr r \<Rightarrow>
    (case getfield data ''modelmag_i'' of
       Inl e \<Rightarrow> Inl e
     | Inr i \<Rightarrow>
    (case setfield aux ''c_par'' (vadd (smul 0.7 (vsub g r)) (smul 1.2 (ssub (vsub r i) 0.18))) of
       Inl e \<Rightarrow> Inl e
     | Inr aux1 \<Rightarrow>
    (case setfield aux1 ''c_perp'' (ssub (vsub (vsub r i) (sdiv (vsub g r) 4.0)) 0.18) of
       Inl e \<Rightarrow> Inl e
     | Inr aux2 \<Rightarrow>
       setfield aux2 ''d_perp'' (vsub (vsub r i) (sdiv (vsub g r) 8.0))))))))))"

text \<open>
  The row of auxiliary colours that the documented formulas give for one row \<open>rd\<close> of model
  magnitudes.
\<close>

definition aux_row :: "(string \<Rightarrow> real) \<Rightarrow> (string \<Rightarrow> real)" where
  "aux_row rd =
     (\<lambda>f. 0)(''c_par'' := 0.7 * (rd ''modelmag_g'' - rd ''modelmag_r'')
                            + 1.2 * (rd ''modelmag_r'' - rd ''modelmag_i'' - 0.18),
             ''c_perp'' := (rd ''modelmag_r'' - rd ''modelmag_i'')
                            - (rd ''modelmag_g'' - rd ''modelmag_r'') / 4 - 0.18,
             ''d_perp'' := (rd ''modelmag_r'' - rd ''modelmag_i'')
                            - (rd ''modelmag_g'' - rd ''modelmag_r'') / 8)"

text \<open>
  Two inputs with the magnitudes \<open>g = 20.0, r = 19.0, i = 18.5\<close> of the specification's
  example: one with the five model magnitudes, one with the fields \<open>g, r, i\<close> only.
\<close>

definition example_mags :: ndarray where
  "example_mags =
     \<lparr>names = [''modelmag_u'', ''modelmag_g'', ''modelmag_r'', ''modelmag_i'', ''modelmag_z''],
      rows = [(\<lambda>f. 0)(''modelmag_u'' := 21.0, ''modelmag_g'' := 20.0, ''modelmag_r'' := 19.0,
                      ''modelmag_i'' := 18.5, ''modelmag_z'' := 18.2)]\<rparr>"

definition gri_only :: ndarray where
  "gri_only =
     \<lparr>names = [''modelmag_g'', ''modelmag_r'', ''modelmag_i''],
      rows = [(\<lambda>f. 0)(''modelmag_g'' := 20.0, ''modelmag_r'' := 19.0, ''modelmag_i'' := 18.5)]\<rparr>"

section \<open>Properties of \<^verbatim>\<open>sdss_objid\<close>\<close>

subsection \<open>Signed and unsigned readings of a 64-bit column value\<close>

lemma sint64_cases:
  fixes x :: "64 word"
  shows "sint x = (if uint x < 2 ^ 63 then uint x else uint x - 2 ^ 64)"
proof -
  have b: "0 \<le> uint x" "uint x < 2 ^ 64"
    using uint_lt2p [of x] by simp_all
  have "sint x = (uint x + 2 ^ 63) mod 2 ^ 64 - 2 ^ 63"
    by (simp add: sint_uint signed_take_bit_eq_take_bit_shift take_bit_eq_mod)
  moreover have "uint x < 2 ^ 63 \<Longrightarrow> (uint x + 2 ^ 63) mod 2 ^ 64 = uint x + 2 ^ 63"
    using b by (intro mod_pos_pos_trivial) simp_all
  moreover have "\<not> uint x < 2 ^ 63 \<Longrightarrow> (uint x + 2 ^ 63) mod 2 ^ 64 = uint x + 2 ^ 63 - 2 ^ 64"
  proof -
    assume "\<not> uint x < 2 ^ 63"
    then have "(uint x + 2 ^ 63 - 2 ^ 64) mod 2 ^ 64 = uint x + 2 ^ 63 - 2 ^ 64"
      using b by (intro mod_pos_pos_trivial) simp_all
    then show ?thesis
      by (metis mod_diff_right_eq mod_self diff_zero)
  qed
  ultimately show ?thesis by simp
qed

lemma sint_range_uint:
  fixes x :: "64 word"
  assumes "k \<le> 2 ^ 63"
  shows "(0 \<le> sint x \<and> sint x < k) = (uint x < k)"
proof -
  have b: "0 \<le> uint x" "uint x < 2 ^ 64"
    using uint_lt2p [of x] by simp_all
  show ?thesis using b assms by (auto simp add: sint64_cases)
qed

lemma sint_nonneg_eq_uint:
  fixes x :: "64 word"
  shows "0 \<le> sint x \<Longrightarrow> sint x = uint x"
  using uint_lt2p [of x] by (simp add: sint64_cases split: if_splits)

lemma astype_uint64_id: "astype_uint64 x = x"
  by (simp add: astype_uint64_def)

lemma check_ge_2p11: "(x < 0 \<or> x \<ge> (2 ^ 11 :: 64 word)) = (\<not> (0 \<le> sint x \<and> sint x < 2 ^ 11))"
  by (simp add: sint_range_uint word_le_def not_less)

lemma check_ge_2p16: "(x < 0 \<or> x \<ge> (2 ^ 16 :: 64 word)) = (\<not> (0 \<le> sint x \<and> sint x < 2 ^ 16))"
  by (simp add: sint_range_uint word_le_def not_less)

lemma check_ge_2p12: "(x < 0 \<or> x \<ge> (2 ^ 12 :: 64 word)) = (\<not> (0 \<le> sint x \<and> sint x < 2 ^ 12))"
  by (simp add: sint_range_uint word_le_def not_less)

lemma check_camcol: "((x::64 word) < 1 \<or> x > 6) = (\<not> (1 \<le> sint x \<and> sint x \<le> 6))"
proof -
  have b: "0 \<le> uint x" "uint x < 2 ^ 64"
    using uint_lt2p [of x] by simp_all
  have "(x < 1) = (uint x < 1)" "(x > 6) = (uint x > 6)"
    by (simp_all add: word_less_def)
  then show ?thesis using b by (auto simp add: sint64_cases)
qed

lemma take_bit_uint_less:
  fixes x :: "64 word"
  shows "uint x < 2 ^ n \<Longrightarrow> take_bit n x = x"
  by (metis take_bit_int_eq_self_iff unsigned_greater_eq unsigned_take_bit_eq word_of_int_uint)

lemma take_bit_in_range:
  fixes x :: "64 word"
  assumes "0 \<le> sint x" "sint x < 2 ^ n"
  shows "take_bit n x = x"
  using assms sint_nonneg_eq_uint [of x] by (simp add: take_bit_uint_less)

subsection \<open>The arrays of \<^verbatim>\<open>sdss_objid\<close>, row by row\<close>

lemma shl_map: "shl (map f xs) n = map (\<lambda>x. push_bit n (f x)) xs"
  by (simp add: shl_def)

lemma bor_map: "bor (map f xs) (map g xs) = map (\<lambda>x. f x OR g x) xs"
  by (induction xs) (simp_all add: bor_def)

lemma replicate_as_map: "replicate (length xs) c = map (\<lambda>x. c) xs"
  by (induction xs) simp_all

lemma any_check_rerun:
  "any_lt_or_ge (array_uint64 (map (\<lambda>r. sint (rerun r)) data)) 0 (2 ^ 11)
     = (\<not> list_all rerun_ok data)"
  by (simp only: any_lt_or_ge_def array_uint64_def list_ex_iff list_all_iff rerun_ok_def
      check_ge_2p11 set_map bex_simps ball_simps astype_uint64_id [unfolded astype_uint64_def])

lemma any_check_run:
  "any_lt_or_ge (map (\<lambda>r. astype_uint64 (run r)) data) 0 (2 ^ 16) = (\<not> list_all run_ok data)"
  by (simp only: any_lt_or_ge_def astype_uint64_id list_ex_iff list_all_iff run_ok_def
      check_ge_2p16 set_map bex_simps ball_simps)

lemma any_check_camcol:
  "any_lt_or_gt (map (\<lambda>r. astype_uint64 (camcol r)) data) 1 6 = (\<not> list_all camcol_ok data)"
  by (simp only: any_lt_or_gt_def astype_uint64_id list_ex_iff list_all_iff camcol_ok_def
      check_camcol set_map bex_simps ball_simps)

lemma any_check_field:
  "any_lt_or_ge (map (\<lambda>r. astype_uint64 (field r)) data) 0 (2 ^ 12) = (\<not> list_all field_ok data)"
  by (simp only: any_lt_or_ge_def astype_uint64_id list_ex_iff list_all_iff field_ok_def
      check_ge_2p12 set_map bex_simps ball_simps)

lemma any_check_objnum:
  "any_lt_or_ge (map (\<lambda>r. astype_uint64 (objnum r)) data) 0 (2 ^ 16) = (\<not> list_all objnum_ok data)"
  by (simp only: any_lt_or_ge_def astype_uint64_id list_ex_iff list_all_iff objnum_ok_def
      check_ge_2p16 set_map bex_simps ball_simps)

lemma any_check_skyversion:
  "\<not> any_lt_or_ge (map (\<lambda>z. z + 2) (replicate n 0)) 0 16"
  by (simp add: any_lt_or_ge_def list_ex_iff)

lemma sdss_objid_cases:
  "sdss_objid data =
    (if \<not> list_all rerun_ok data then Inl (OutOfBounds ''rerun'')
     else if \<not> list_all run_ok data then Inl (OutOfBounds ''run'')
     else if \<not> list_all camcol_ok data then Inl (OutOfBounds ''camcol'')
     else if \<not> list_all field_ok data then Inl (OutOfBounds ''field'')
     else if \<not> list_all objnum_ok data then Inl (OutOfBounds ''id'')
     else Inr (map layout data))"
  unfolding sdss_objid_def Let_def any_check_rerun any_check_run any_check_camcol
    any_check_field any_check_objnum
  apply (simp only: any_check_skyversion if_False)
  apply (simp add: array_uint64_def astype_uint64_id replicate_as_map shl_map bor_map layout_def
      o_def ac_simps)
  done

subsection \<open>Decoding the layout\<close>

lemma layout_decode:
  assumes "in_range r"
  shows "bits 48 11 (layout r) = sint (rerun r)"
    and "bits 32 16 (layout r) = sint (run r)"
    and "bits 29 3 (layout r) = sint (camcol r)"
    and "bits 16 12 (layout r) = sint (field r)"
    and "bits 0 16 (layout r) = sint (objnum r)"
    and "bits 59 4 (layout r) = 2"
    and "\<not> bit (layout r) 63"
    and "\<not> bit (layout r) 28"
proof -
  have ra: "0 \<le> sint (rerun r)" "sint (rerun r) < 2 ^ 11"
    and rb: "0 \<le> sint (run r)" "sint (run r) < 2 ^ 16"
    and rc: "1 \<le> sint (camcol r)" "sint (camcol r) \<le> 6"
    and rd: "0 \<le> sint (field r)" "sint (field r) < 2 ^ 12"
    and re: "0 \<le> sint (objnum r)" "sint (objnum r) < 2 ^ 16"
    using assms unfolding in_range_def rerun_ok_def run_ok_def camcol_ok_def field_ok_def
      objnum_ok_def by blast+
  have rc': "0 \<le> sint (camcol r)" "sint (camcol r) < 2 ^ 3"
    using rc by simp_all
  have a: "take_bit 11 (rerun r) = rerun r" "sint (rerun r) = uint (rerun r)"
    using ra by (rule take_bit_in_range, intro sint_nonneg_eq_uint)
  have b: "take_bit 16 (run r) = run r" "sint (run r) = uint (run r)"
    using rb by (rule take_bit_in_range, intro sint_nonneg_eq_uint)
  have c: "take_bit 3 (camcol r) = camcol r" "sint (camcol r) = uint (camcol r)"
    using rc' by (rule take_bit_in_range, intro sint_nonneg_eq_uint)
  have d: "take_bit 12 (field r) = field r" "sint (field r) = uint (field r)"
    using rd by (rule take_bit_in_range, intro sint_nonneg_eq_uint)
  have e: "take_bit 16 (objnum r) = objnum r" "sint (objnum r) = uint (objnum r)"
    using re by (rule take_bit_in_range, intro sint_nonneg_eq_uint)
  define w where "w = push_bit 59 2 OR push_bit 48 (take_bit 11 (rerun r)) OR
      push_bit 32 (take_bit 16 (run r)) OR push_bit 29 (take_bit 3 (camcol r)) OR push_bit 28 0 OR
      push_bit 16 (take_bit 12 (field r)) OR take_bit 16 (objnum r)"
  have w: "layout r = w"
    by (simp only: w_def layout_def a b c d e)
  have "take_bit 11 (drop_bit 48 w) = take_bit 11 (rerun r)"
    unfolding w_def by (rule bit_word_eqI) (auto simp add: bit_simps)
  then show "bits 48 11 (layout r) = sint (rerun r)"
    by (simp only: bits_def w a)
  have "take_bit 16 (drop_bit 32 w) = take_bit 16 (run r)"
    unfolding w_def by (rule bit_word_eqI) (auto simp add: bit_simps)
  then show "bits 32 16 (layout r) = sint (run r)"
    by (simp only: bits_def w b)
  have "take_bit 3 (drop_bit 29 w) = take_bit 3 (camcol r)"
    unfolding w_def by (rule bit_word_eqI) (auto simp add: bit_simps)
  then show "bits 29 3 (layout r) = sint (camcol r)"
    by (simp only: bits_def w c)
  have "take_bit 12 (drop_bit 16 w) = take_bit 12 (field r)"
    unfolding w_def by (rule bit_word_eqI) (auto simp add: bit_simps)
  then show "bits 16 12 (layout r) = sint (field r)"
    by (simp only: bits_def w d)
  have "take_bit 16 (drop_bit 0 w) = take_bit 16 (objnum r)"
    unfolding w_def by (rule bit_word_eqI) (auto simp add: bit_simps)
  then show "bits 0 16 (layout r) = sint (objnum r)"
    by (simp only: bits_def w e)
  have "take_bit 4 (drop_bit 59 w) = 2"
    unfolding w_def by (rule bit_word_eqI) (auto simp add: bit_simps)
  then show "bits 59 4 (layout r) = 2"
    by (simp add: bits_def w)
  show "\<not> bit (layout r) 63"
    unfolding w w_def by (auto simp add: bit_simps)
  show "\<not> bit (layout r) 28"
    unfolding w w_def by (auto simp add: bit_simps)
qed

lemma sdss_objid_in_range:
  "list_all in_range data \<Longrightarrow> sdss_objid data = Inr (map layout data)"
  by (simp add: sdss_objid_cases list_all_iff in_range_def)

text \<open>
  Claim C1. Round trip of the bit layout: for a batch whose rows are all in the documented
  ranges, \<^verbatim>\<open>sdss_objid\<close> returns one identifier per row, and in every identifier bits 48-58
  are the row's \<open>rerun\<close>, bits 32-47 its \<open>run\<close>, bits 29-31 its \<open>camcol\<close>, bits 16-27 its
  \<open>field\<close> and bits 0-15 its \<open>id\<close>; bit 63 is 0, bits 59-62 hold the sky version 2 and
  bit 28 (the first-field flag) is 0.
\<close>

theorem sdss_objid_roundtrip:
  assumes "list_all in_range data"
  shows "\<exists>ws. sdss_objid data = Inr ws \<and> length ws = length data \<and>
    (\<forall>i<length data.
       bits 48 11 (ws ! i) = sint (rerun (data ! i)) \<and>
       bits 32 16 (ws ! i) = sint (run (data ! i)) \<and>
       bits 29 3 (ws ! i) = sint (camcol (data ! i)) \<and>
       bits 16 12 (ws ! i) = sint (field (data ! i)) \<and>
       bits 0 16 (ws ! i) = sint (objnum (data ! i)) \<and>
       \<not> bit (ws ! i) 63 \<and> bits 59 4 (ws ! i) = 2 \<and> \<not> bit (ws ! i) 28)"
proof -
  have "in_range (data ! i)" if "i < length data" for i
    using assms that by (simp add: list_all_length)
  then show ?thesis
    using sdss_objid_in_range [OF assms] by (simp add: layout_decode)
qed

lemmas ok_defs = in_range_def rerun_ok_def run_ok_def camcol_ok_def field_ok_def objnum_ok_def

subsection \<open>Range checks and examples\<close>

lemma in_range_known_example: "in_range known_example"
  by (simp add: ok_defs known_example_def)

lemma in_range_all_max: "in_range all_max"
  by (simp add: ok_defs all_max_def)

theorem sdss_objid_roundtrip_witness:
  "list_all in_range [known_example, all_max] \<and>
   (\<exists>ws. sdss_objid [known_example, all_max] = Inr ws \<and>
      length ws = length [known_example, all_max] \<and>
      (\<forall>i<length [known_example, all_max].
         bits 48 11 (ws ! i) = sint (rerun ([known_example, all_max] ! i)) \<and>
         bits 32 16 (ws ! i) = sint (run ([known_example, all_max] ! i)) \<and>
         bits 29 3 (ws ! i) = sint (camcol ([known_example, all_max] ! i)) \<and>
         bits 16 12 (ws ! i) = sint (field ([known_example, all_max] ! i)) \<and>
         bits 0 16 (ws ! i) = sint (objnum ([known_example, all_max] ! i)) \<and>
         \<not> bit (ws ! i) 63 \<and> bits 59 4 (ws ! i) = 2 \<and> \<not> bit (ws ! i) 28))"
proof -
  have h: "list_all in_range [known_example, all_max]"
    by (simp add: in_range_known_example in_range_all_max)
  from sdss_objid_roundtrip [OF h] h show ?thesis by (rule_tac conjI)
qed

lemma sdss_objid_Inr_iff: "(\<exists>ws. sdss_objid data = Inr ws) = (\<forall>r\<in>set data. in_range r)"
  by (auto simp add: sdss_objid_cases list_all_iff in_range_def)

lemma sdss_objid_Inl_iff: "(\<exists>e. sdss_objid data = Inl e) = (\<exists>r\<in>set data. \<not> in_range r)"
  by (auto simp add: sdss_objid_cases list_all_iff in_range_def)

lemma sdss_objid_error:
  assumes "sdss_objid data = Inl e"
  shows "(e = OutOfBounds ''rerun'' \<and> (\<exists>r\<in>set data. \<not> rerun_ok r)) \<or>
         (e = OutOfBounds ''run'' \<and> (\<exists>r\<in>set data. \<not> run_ok r)) \<or>
         (e = OutOfBounds ''camcol'' \<and> (\<exists>r\<in>set data. \<not> camcol_ok r)) \<or>
         (e = OutOfBounds ''field'' \<and> (\<exists>r\<in>set data. \<not> field_ok r)) \<or>
         (e = OutOfBounds ''id'' \<and> (\<exists>r\<in>set data. \<not> objnum_ok r))"
  using assms by (auto simp add: sdss_objid_cases list_all_iff split: if_splits)

lemma sdss_objid_camcol0:
  "sdss_objid [known_example\<lparr>camcol := 0\<rparr>] = Inl (OutOfBounds ''camcol'')"
  by (simp add: sdss_objid_cases ok_defs known_example_def)

lemma sdss_objid_camcol7:
  "sdss_objid [known_example\<lparr>camcol := 7\<rparr>] = Inl (OutOfBounds ''camcol'')"
  by (simp add: sdss_objid_cases ok_defs known_example_def)

lemma sdss_objid_run65536:
  "sdss_objid [known_example\<lparr>run := 2 ^ 16\<rparr>] = Inl (OutOfBounds ''run'')"
  by (simp add: sdss_objid_cases ok_defs known_example_def)

lemma layout_all_max: "layout all_max = 1729382256104964095"
  by (simp add: layout_def all_max_def)

lemma sdss_objid_all_max: "sdss_objid [all_max] = Inr [1729382256104964095]"
  using sdss_objid_in_range [of "[all_max]"] by (simp add: in_range_all_max layout_all_max)

lemma bad_rows_not_in_range:
  "sint (camcol r) = 0 \<or> sint (camcol r) = 7 \<or> sint (run r) = 2 ^ 16 \<Longrightarrow> \<not> in_range r"
  by (auto simp add: ok_defs)

text \<open>
  Claim C2. \<^verbatim>\<open>sdss_objid\<close> fails if and only if some row of the batch violates a documented
  range, and returns identifiers if and only if every row is in range: a batch is
  refused or encoded as a whole. The error names a column that has a violating element.
  A row with \<open>camcol = 0\<close>, \<open>camcol = 7\<close> or \<open>run = 2^16\<close> makes the call fail; the row of the
  largest valid values is encoded, to the value that the bit layout gives.
\<close>

theorem sdss_objid_range_check:
  "((\<exists>e. sdss_objid data = Inl e) = (\<exists>r\<in>set data. \<not> in_range r)) \<and>
   ((\<exists>ws. sdss_objid data = Inr ws) = (\<forall>r\<in>set data. in_range r)) \<and>
   (\<forall>e. sdss_objid data = Inl e \<longrightarrow>
      (e = OutOfBounds ''rerun'' \<and> (\<exists>r\<in>set data. \<not> rerun_ok r)) \<or>
      (e = OutOfBounds ''run'' \<and> (\<exists>r\<in>set data. \<not> run_ok r)) \<or>
      (e = OutOfBounds ''camcol'' \<and> (\<exists>r\<in>set data. \<not> camcol_ok r)) \<or>
      (e = OutOfBounds ''field'' \<and> (\<exists>r\<in>set data. \<not> field_ok r)) \<or>
      (e = OutOfBounds ''id'' \<and> (\<exists>r\<in>set data. \<not> objnum_ok r))) \<and>
   ((\<exists>r\<in>set data. sint (camcol r) = 0 \<or> sint (camcol r) = 7 \<or> sint (run r) = 2 ^ 16) \<longrightarrow>
      (\<exists>e. sdss_objid data = Inl e)) \<and>
   sdss_objid [known_example\<lparr>camcol := 0\<rparr>] = Inl (OutOfBounds ''camcol'') \<and>
   sdss_objid [known_example\<lparr>camcol := 7\<rparr>] = Inl (OutOfBounds ''camcol'') \<and>
   sdss_objid [known_example\<lparr>run := 2 ^ 16\<rparr>] = Inl (OutOfBounds ''run'') \<and>
   sdss_objid [\<lparr>rerun = 2047, run = 65535, camcol = 6, field = 4095, objnum = 65535\<rparr>]
     = Inr [push_bit 59 2 OR push_bit 48 2047 OR push_bit 32 65535 OR push_bit 29 6 OR
            push_bit 28 0 OR push_bit 16 4095 OR 65535] \<and>
   (push_bit 59 2 OR push_bit 48 2047 OR push_bit 32 65535 OR push_bit 29 6 OR
            push_bit 28 0 OR push_bit 16 4095 OR 65535 :: uint64) = 1729382256104964095"
proof (intro conjI)
  show "(\<exists>e. sdss_objid data = Inl e) = (\<exists>r\<in>set data. \<not> in_range r)"
    by (rule sdss_objid_Inl_iff)
  show "(\<exists>ws. sdss_objid data = Inr ws) = (\<forall>r\<in>set data. in_range r)"
    by (rule sdss_objid_Inr_iff)
  show "\<forall>e. sdss_objid data = Inl e \<longrightarrow>
      (e = OutOfBounds ''rerun'' \<and> (\<exists>r\<in>set data. \<not> rerun_ok r)) \<or>
      (e = OutOfBounds ''run'' \<and> (\<exists>r\<in>set data. \<not> run_ok r)) \<or>
      (e = OutOfBounds ''camcol'' \<and> (\<exists>r\<in>set data. \<not> camcol_ok r)) \<or>
      (e = OutOfBounds ''field'' \<and> (\<exists>r\<in>set data. \<not> field_ok r)) \<or>
      (e = OutOfBounds ''id'' \<and> (\<exists>r\<in>set data. \<not> objnum_ok r))"
    by (intro allI impI) (rule sdss_objid_error)
  show "(\<exists>r\<in>set data. sint (camcol r) = 0 \<or> sint (camcol r) = 7 \<or> sint (run r) = 2 ^ 16) \<longrightarrow>
      (\<exists>e. sdss_objid data = Inl e)"
    unfolding sdss_objid_Inl_iff using bad_rows_not_in_range by blast
  show "sdss_objid [known_example\<lparr>camcol := 0\<rparr>] = Inl (OutOfBounds ''camcol'')"
    by (rule sdss_objid_camcol0)
  show "sdss_objid [known_example\<lparr>camcol := 7\<rparr>] = Inl (OutOfBounds ''camcol'')"
    by (rule sdss_objid_camcol7)
  show "sdss_objid [known_example\<lparr>run := 2 ^ 16\<rparr>] = Inl (OutOfBounds ''run'')"
    by (rule sdss_objid_run65536)
  show "sdss_objid [\<lparr>rerun = 2047, run = 65535, camcol = 6, field = 4095, objnum = 65535\<rparr>]
     = Inr [push_bit 59 2 OR push_bit 48 2047 OR push_bit 32 65535 OR push_bit 29 6 OR
            push_bit 28 0 OR push_bit 16 4095 OR 65535]"
    using sdss_objid_in_range [of "[all_max]"] in_range_all_max
    by (simp add: layout_def all_max_def)
  show "(push_bit 59 2 OR push_bit 48 2047 OR push_bit 32 65535 OR push_bit 29 6 OR
            push_bit 28 0 OR push_bit 16 4095 OR 65535 :: uint64) = 1729382256104964095"
    by simp
qed

theorem sdss_objid_range_check_witness:
  "(\<exists>r\<in>set [known_example, known_example\<lparr>camcol := 7\<rparr>]. \<not> in_range r) \<and>
   (\<exists>e. sdss_objid [known_example, known_example\<lparr>camcol := 7\<rparr>] = Inl e) \<and>
   list_all in_range [known_example, all_max] \<and>
   (\<exists>ws. sdss_objid [known_example, all_max] = Inr ws)"
proof -
  have h: "\<exists>r\<in>set [known_example, known_example\<lparr>camcol := 7\<rparr>]. \<not> in_range r"
    by (simp add: ok_defs known_example_def)
  have k: "list_all in_range [known_example, all_max]"
    by (simp add: in_range_known_example in_range_all_max)
  then have k': "\<forall>r\<in>set [known_example, all_max]. in_range r"
    by (simp only: list_all_iff)
  from sdss_objid_range_check [of "[known_example, known_example\<lparr>camcol := 7\<rparr>]"] h
  have 1: "\<exists>e. sdss_objid [known_example, known_example\<lparr>camcol := 7\<rparr>] = Inl e"
    by (elim conjE) (rule iffD2)
  from sdss_objid_range_check [of "[known_example, all_max]"] k'
  have 2: "\<exists>ws. sdss_objid [known_example, all_max] = Inr ws"
    by (elim conjE) (rule iffD2)
  from h 1 k 2 show ?thesis by (intro conjI)
qed

text \<open>
  Claim C3. The known example \<open>rerun = 301, run = 6122, camcol = 1, field = 13, id = 1\<close>
  is encoded to \<open>(2 << 59) | (301 << 48) | (6122 << 32) | (1 << 29) | (13 << 16) | 1\<close>,
  which is 1237671766924263425.
\<close>

theorem sdss_objid_known_example:
  "sdss_objid [\<lparr>rerun = 301, run = 6122, camcol = 1, field = 13, objnum = 1\<rparr>]
     = Inr [push_bit 59 2 OR push_bit 48 301 OR push_bit 32 6122 OR push_bit 29 1 OR
            push_bit 16 13 OR 1] \<and>
   (push_bit 59 2 OR push_bit 48 301 OR push_bit 32 6122 OR push_bit 29 1 OR
            push_bit 16 13 OR 1 :: uint64) = 1237671766924263425"
  using sdss_objid_in_range [of "[known_example]"] in_range_known_example
  by (simp add: layout_def known_example_def)

section \<open>Properties of \<^verbatim>\<open>asinh_mag\<close> and \<^verbatim>\<open>asinh_image\<close>\<close>

subsection \<open>Column assignments, row by row\<close>

lemma map2_upd_map:
  "length xs = length ys \<Longrightarrow>
   map2 (\<lambda>r x. r(f := x)) xs (map g ys) = map2 (\<lambda>r rd. r(f := g rd)) xs ys"
  by (induction xs ys rule: list_induct2) simp_all

lemma map2_upd_sub:
  "length xs = length ys \<Longrightarrow>
   map2 (\<lambda>r x. r(f := x)) (map2 (\<lambda>r rd. r(f := g rd)) xs ys)
     (map2 (-) (map (\<lambda>r. r f) (map2 (\<lambda>r rd. r(f := g rd)) xs ys)) (map h ys))
   = map2 (\<lambda>r rd. r(f := g rd - h rd)) xs ys"
  by (induction xs ys rule: list_induct2) (auto intro!: ext)

lemma map2_map2_left:
  "length xs = length ys \<Longrightarrow> map2 F (map2 G xs ys) ys = map2 (\<lambda>x y. F (G x y) y) xs ys"
  by (induction xs ys rule: list_induct2) simp_all

lemma map2_id: "length xs = length ys \<Longrightarrow> map2 (\<lambda>x y. x) xs ys = xs"
  by (induction xs ys rule: list_induct2) simp_all

subsection \<open>One pass of the loop over the bands\<close>

lemma code_luptitude:
  "(- 2.5 / ln 10) * (arsinh ((f * (1.0 / 10 ^ 9)) / (2.0 * bb)) + ln bb) = luptitude bb f"
  by (simp add: luptitude_def)

lemma getfield_in: "f \<in> set (names a) \<Longrightarrow> getfield a f = Inr (map (\<lambda>r. r f) (rows a))"
  by (simp add: getfield_def)

lemma getfield_out: "f \<notin> set (names a) \<Longrightarrow> getfield a f = Inl (NoField f)"
  by (simp add: getfield_def)

lemma setfield_out: "f \<notin> set (names a) \<Longrightarrow> setfield a f v = Inl (NoField f)"
  by (simp add: setfield_def)

lemma setfield_map:
  "f \<in> set (names a) \<Longrightarrow> length (rows a) = length ys \<Longrightarrow>
   setfield a f (map g ys) = Inr (a\<lparr>rows := map2 (\<lambda>r rd. r(f := g rd)) (rows a) ys\<rparr>)"
  by (simp add: setfield_def map2_upd_map)

lemma setfield_ok:
  "f \<in> set (names a) \<Longrightarrow> length v = length (rows a) \<Longrightarrow>
   setfield a f v = Inr (a\<lparr>rows := map2 (\<lambda>r x. r(f := x)) (rows a) v\<rparr>)"
  by (simp add: setfield_def)

lemma setfield_sub:
  assumes "f \<in> set (names a)" "length (rows a) = length ys"
  shows "setfield (a\<lparr>rows := map2 (\<lambda>r rd. r(f := g rd)) (rows a) ys\<rparr>) f
           (map2 (-) (map (\<lambda>r. r f) (map2 (\<lambda>r rd. r(f := g rd)) (rows a) ys)) (map h ys))
         = Inr (a\<lparr>rows := map2 (\<lambda>r rd. r(f := g rd - h rd)) (rows a) ys\<rparr>)"
proof -
  let ?X = "map2 (\<lambda>r rd. r(f := g rd)) (rows a) ys"
  let ?A = "a\<lparr>rows := ?X\<rparr>"
  let ?V = "map2 (-) (map (\<lambda>r. r f) ?X) (map h ys)"
  have 1: "setfield ?A f ?V = Inr (?A\<lparr>rows := map2 (\<lambda>r x. r(f := x)) (rows ?A) ?V\<rparr>)"
    by (rule setfield_ok) (use assms in simp_all)
  have 2: "rows ?A = ?X" by simp
  have 3: "map2 (\<lambda>r x. r(f := x)) ?X ?V = map2 (\<lambda>r rd. r(f := g rd - h rd)) (rows a) ys"
    by (rule map2_upd_sub [OF assms(2)])
  have 4: "?A\<lparr>rows := Z\<rparr> = a\<lparr>rows := Z\<rparr>" for Z by simp
  show ?thesis by (simp only: 1 2 3 4)
qed

lemma band_loop_Cons:
  assumes len: "length (rows mag) = length (rows data)"
  shows "band_loop data magtype b deredden (band # rest) mag =
    (if magtype @ ''flux_'' @ [band] \<notin> set (names data) then Inl (NoField (magtype @ ''flux_'' @ [band]))
     else if map_of b [band] = None then Inl (NoField [band])
     else if magtype @ ''mag_'' @ [band] \<notin> set (names mag) then Inl (NoField (magtype @ ''mag_'' @ [band]))
     else if deredden \<and> ''extinction_'' @ [band] \<notin> set (names data)
       then Inl (NoField (''extinction_'' @ [band]))
     else band_loop data magtype b deredden rest
            (mag\<lparr>rows := map2 (\<lambda>rm rd. band_update magtype b deredden rd band rm)
                               (rows mag) (rows data)\<rparr>))"
proof (cases "magtype @ ''flux_'' @ [band] \<in> set (names data)")
  case False
  then show ?thesis by (simp only: band_loop.simps getfield_out sum.case if_True not_False_eq_True)
next
  case fl: True
  show ?thesis
  proof (cases "map_of b [band]")
    case None
    then show ?thesis using fl
      by (simp only: band_loop.simps getfield_in record_field_def option.case sum.case
          not_True_eq_False if_False if_True refl)
  next
    case (Some bb)
    show ?thesis
    proof (cases "magtype @ ''mag_'' @ [band] \<in> set (names mag)")
      case False
      then show ?thesis using fl Some
        by (simp only: band_loop.simps getfield_in record_field_def option.case sum.case
          not_True_eq_False if_False if_True refl setfield_out option.distinct not_False_eq_True)
    next
      case mg: True
      have s1: "setfield mag (magtype @ ''mag_'' @ [band])
            (map (\<lambda>f. (- 2.5 / ln 10) * (arsinh ((f * (1.0 / 10 ^ 9)) / (2.0 * bb)) + ln bb))
               (map (\<lambda>r. r (magtype @ ''flux_'' @ [band])) (rows data)))
          = Inr (mag\<lparr>rows := map2 (\<lambda>r rd. r(magtype @ ''mag_'' @ [band] :=
                    luptitude bb (rd (magtype @ ''flux_'' @ [band])))) (rows mag) (rows data)\<rparr>)"
        unfolding code_luptitude map_map o_def
        by (rule setfield_map [OF mg len])
      show ?thesis
      proof (cases deredden)
        case False
        then show ?thesis using fl Some mg
          by (simp only: band_loop.simps getfield_in record_field_def option.case sum.case s1)
             (simp add: band_update_def band_value_def)
      next
        case dr: True
        show ?thesis
        proof (cases "''extinction_'' @ [band] \<in> set (names data)")
          case False
          then show ?thesis using fl Some mg dr
            by (simp only: band_loop.simps getfield_in record_field_def option.case sum.case s1)
               (simp add: getfield_def)
        next
          case ex: True
          let ?mag1 = "mag\<lparr>rows := map2 (\<lambda>r rd. r(magtype @ ''mag_'' @ [band] :=
                    luptitude bb (rd (magtype @ ''flux_'' @ [band])))) (rows mag) (rows data)\<rparr>"
          have g1: "getfield ?mag1 (magtype @ ''mag_'' @ [band])
              = Inr (map (\<lambda>r. r (magtype @ ''mag_'' @ [band])) (rows ?mag1))"
            using mg by (simp add: getfield_def)
          have s2: "setfield ?mag1 (magtype @ ''mag_'' @ [band])
              (map2 (-) (map (\<lambda>r. r (magtype @ ''mag_'' @ [band])) (rows ?mag1))
                 (map (\<lambda>r. r (''extinction_'' @ [band])) (rows data)))
             = Inr (mag\<lparr>rows := map2 (\<lambda>r rd. r(magtype @ ''mag_'' @ [band] :=
                    luptitude bb (rd (magtype @ ''flux_'' @ [band])) - rd (''extinction_'' @ [band])))
                    (rows mag) (rows data)\<rparr>)"
            using setfield_sub [OF mg len, of "\<lambda>rd. luptitude bb (rd (magtype @ ''flux_'' @ [band]))"
                "\<lambda>r. r (''extinction_'' @ [band])"]
            by simp
          show ?thesis using fl Some mg dr ex
            by (simp only: band_loop.simps getfield_in [OF fl] getfield_in [OF ex] record_field_def
                option.case sum.case s1 g1 s2)
              (simp add: band_update_def band_value_def)
        qed
      qed
    qed
  qed
qed

declare band_loop.simps(2) [simp del]

lemma loop_ready_rows [simp]:
  "loop_ready data magtype b deredden (mag\<lparr>rows := R\<rparr>) band
     = loop_ready data magtype b deredden mag band"
  by (simp add: loop_ready_def)

lemma loop_ready_rows_eta [simp]:
  "loop_ready data magtype b deredden (mag\<lparr>rows := R\<rparr>)
     = loop_ready data magtype b deredden mag"
  by (rule ext) simp

lemma band_loop_Cons_ready:
  assumes "length (rows mag) = length (rows data)"
    and "loop_ready data magtype b deredden mag band"
  shows "band_loop data magtype b deredden (band # rest) mag =
     band_loop data magtype b deredden rest
            (mag\<lparr>rows := map2 (\<lambda>rm rd. band_update magtype b deredden rd band rm)
                               (rows mag) (rows data)\<rparr>)"
  using assms(2) by (auto simp add: band_loop_Cons [OF assms(1)] loop_ready_def)

lemma band_loop_Cons_not_ready:
  assumes "length (rows mag) = length (rows data)"
    and "\<not> loop_ready data magtype b deredden mag band"
  shows "\<exists>f. band_loop data magtype b deredden (band # rest) mag = Inl (NoField f) \<and>
      (f = [band] \<or> f \<notin> set (names data) \<or> f \<notin> set (names mag))"
  using assms(2) by (auto simp add: band_loop_Cons [OF assms(1)] loop_ready_def)

subsection \<open>The whole loop\<close>

lemma band_loop_Inr_iff:
  assumes "length (rows mag) = length (rows data)"
  shows "(band_loop data magtype b deredden bs mag = Inr mag') =
     (list_all (loop_ready data magtype b deredden mag) bs \<and>
      mag' = mag\<lparr>rows := map2 (\<lambda>rm rd. fold (band_update magtype b deredden rd) bs rm)
                               (rows mag) (rows data)\<rparr>)"
  using assms
proof (induction bs arbitrary: mag)
  case Nil
  then show ?case by (auto simp add: map2_id)
next
  case (Cons band rest)
  show ?case
  proof (cases "loop_ready data magtype b deredden mag band")
    case False
    with band_loop_Cons_not_ready [OF Cons.prems False, of rest] show ?thesis by auto
  next
    case True
    let ?mag1 = "mag\<lparr>rows := map2 (\<lambda>rm rd. band_update magtype b deredden rd band rm)
                               (rows mag) (rows data)\<rparr>"
    have len: "length (rows ?mag1) = length (rows data)"
      using Cons.prems by simp
    show ?thesis
      unfolding band_loop_Cons_ready [OF Cons.prems True] Cons.IH [OF len]
      using True Cons.prems by (simp add: map2_map2_left)
  qed
qed

lemma band_loop_Inl:
  assumes "length (rows mag) = length (rows data)"
    and "band_loop data magtype b deredden bs mag = Inl e"
  shows "\<exists>band\<in>set bs.
      (e = NoField (magtype @ ''flux_'' @ [band]) \<and>
         magtype @ ''flux_'' @ [band] \<notin> set (names data)) \<or>
      (e = NoField [band] \<and> map_of b [band] = None) \<or>
      (e = NoField (magtype @ ''mag_'' @ [band]) \<and>
         magtype @ ''mag_'' @ [band] \<notin> set (names mag)) \<or>
      (deredden \<and> e = NoField (''extinction_'' @ [band]) \<and>
         ''extinction_'' @ [band] \<notin> set (names data))"
  using assms
proof (induction bs arbitrary: mag)
  case Nil
  then show ?case by simp
next
  case (Cons band rest)
  show ?case
  proof (cases "loop_ready data magtype b deredden mag band")
    case False
    with Cons.prems(2) show ?thesis
      unfolding band_loop_Cons [OF Cons.prems(1)] loop_ready_def
      by (auto split: if_splits)
  next
    case True
    let ?mag1 = "mag\<lparr>rows := map2 (\<lambda>rm rd. band_update magtype b deredden rd band rm)
                               (rows mag) (rows data)\<rparr>"
    have len: "length (rows ?mag1) = length (rows data)"
      using Cons.prems by simp
    from Cons.prems(2) have "band_loop data magtype b deredden rest ?mag1 = Inl e"
      unfolding band_loop_Cons_ready [OF Cons.prems(1) True] .
    from Cons.IH [OF len this] show ?thesis by auto
  qed
qed

lemma last_mag_name: "last (magtype @ ''mag_'' @ [band]) = band"
  by simp

lemma fold_band_update:
  "fold (band_update magtype b deredden rd) bs rm f =
     (if f \<in> (\<lambda>band. magtype @ ''mag_'' @ [band]) ` set bs
      then band_value magtype b deredden rd (last f) else rm f)"
proof (induction bs arbitrary: rm)
  case Nil
  then show ?case by simp
next
  case (Cons band rest)
  show ?case
    unfolding fold_simps Cons.IH
    by (auto simp add: band_update_def)
qed

subsection \<open>The result of \<^verbatim>\<open>asinh_mag\<close>\<close>

lemma distinct_band_names: "distinct (map (\<lambda>band. [band]) bands) = distinct bands"
  by (simp add: distinct_map inj_on_def)

lemma distinct_mag_names:
  "distinct (map (\<lambda>band. magtype @ [CHR ''m'', CHR ''a'', CHR ''g'', CHR ''_'', band]) bands)
     = distinct bands"
  by (simp add: distinct_map inj_on_def)

lemma map_of_zip_bands:
  assumes "length bands = length cs" "band \<in> set bands"
  shows "map_of (zip (map (\<lambda>band. [band]) bands) cs) [band] \<noteq> None"
proof -
  have "[band] \<in> set (map (\<lambda>band. [band]) bands)"
    using assms(2) by simp
  moreover have "length (map (\<lambda>band. [band]) bands) = length cs"
    using assms(1) by simp
  ultimately show ?thesis
    using map_of_zip_is_Some by fastforce
qed

lemma asinh_mag_cases:
  "asinh_mag data magtype bands deredden =
    (if bands = [] then Inl IndexError
     else if magtype @ ''flux_'' @ [hd bands] \<notin> set (names data)
       then Inl (NoField (magtype @ ''flux_'' @ [hd bands]))
     else if \<not> distinct bands then Inl DuplicateField
     else if length bands \<noteq> 5 then Inl (TupleLength 5 (length bands))
     else band_loop data magtype (b_table bands) deredden bands
            \<lparr>names = map (\<lambda>band. magtype @ ''mag_'' @ [band]) bands,
             rows = replicate (length (rows data)) (\<lambda>f. 0)\<rparr>)"
  by (simp add: asinh_mag_def list.case_eq_if getfield_def np_record_def np_dtype_def
      np_zeros_def distinct_band_names distinct_mag_names b_table_def b_consts_def)

lemma map2_replicate_left:
  "map2 (\<lambda>rm rd. F rd rm) (replicate (length ys) z) ys = map (\<lambda>rd. F rd z) ys"
  by (induction ys) simp_all

lemma length_b_consts: "length b_consts = 5"
  by (simp add: b_consts_def)

lemma asinh_mag_Inr_iff:
  "(asinh_mag data magtype bands deredden = Inr mag) =
     (length bands = 5 \<and> distinct bands \<and>
      (\<forall>band\<in>set bands. magtype @ ''flux_'' @ [band] \<in> set (names data) \<and>
          (deredden \<longrightarrow> ''extinction_'' @ [band] \<in> set (names data))) \<and>
      mag = \<lparr>names = map (\<lambda>band. magtype @ ''mag_'' @ [band]) bands,
             rows = map (\<lambda>rd. fold (band_update magtype (b_table bands) deredden rd) bands (\<lambda>f. 0))
                      (rows data)\<rparr>)"
proof (cases "length bands = 5 \<and> distinct bands")
  case False
  then show ?thesis by (auto simp add: asinh_mag_cases)
next
  case True
  let ?mag0 = "\<lparr>names = map (\<lambda>band. magtype @ ''mag_'' @ [band]) bands,
             rows = replicate (length (rows data)) (\<lambda>f. 0)\<rparr>"
  have ne: "bands \<noteq> []" using True by auto
  then have hd: "hd bands \<in> set bands" by simp
  have len: "length (rows ?mag0) = length (rows data)" by simp
  have tbl: "map_of (b_table bands) [band] \<noteq> None" if "band \<in> set bands" for band
    unfolding b_table_def using True that by (intro map_of_zip_bands) (simp_all add: length_b_consts)
  have ready: "list_all (loop_ready data magtype (b_table bands) deredden ?mag0) bands =
      (\<forall>band\<in>set bands. magtype @ ''flux_'' @ [band] \<in> set (names data) \<and>
          (deredden \<longrightarrow> ''extinction_'' @ [band] \<in> set (names data)))"
    using tbl by (auto simp add: list_all_iff loop_ready_def)
  have rows0: "map2 (\<lambda>rm rd. fold (band_update magtype (b_table bands) deredden rd) bands rm)
                 (rows ?mag0) (rows data)
      = map (\<lambda>rd. fold (band_update magtype (b_table bands) deredden rd) bands (\<lambda>f. 0)) (rows data)"
    by (simp add: map2_replicate_left)
  show ?thesis
  proof (cases "magtype @ ''flux_'' @ [hd bands] \<in> set (names data)")
    case False
    with hd have "\<not> (\<forall>band\<in>set bands. magtype @ ''flux_'' @ [band] \<in> set (names data) \<and>
          (deredden \<longrightarrow> ''extinction_'' @ [band] \<in> set (names data)))"
      by blast
    with False ne show ?thesis by (simp add: asinh_mag_cases)
  next
    case fl: True
    have eq: "asinh_mag data magtype bands deredden
        = band_loop data magtype (b_table bands) deredden bands ?mag0"
      using True ne fl by (simp add: asinh_mag_cases)
    show ?thesis
      unfolding eq band_loop_Inr_iff [OF len] ready rows0 using True by simp
  qed
qed


lemma asinh_mag_cell:
  assumes "asinh_mag data magtype bands deredden = Inr mag"
    and "band \<in> set bands" and "i < length (rows data)"
  shows "(rows mag ! i) (magtype @ ''mag_'' @ [band])
     = band_value magtype (b_table bands) deredden (rows data ! i) band"
proof -
  have "rows mag = map (\<lambda>rd. fold (band_update magtype (b_table bands) deredden rd) bands (\<lambda>f. 0))
                      (rows data)"
    using assms(1) unfolding asinh_mag_Inr_iff by simp
  then have "(rows mag ! i) (magtype @ ''mag_'' @ [band])
     = fold (band_update magtype (b_table bands) deredden (rows data ! i)) bands (\<lambda>f. 0)
         (magtype @ ''mag_'' @ [band])"
    using assms(3) by simp
  also have "\<dots> = band_value magtype (b_table bands) deredden (rows data ! i) band"
    unfolding fold_band_update using assms(2) by (simp del: append.simps)
  finally show ?thesis .
qed

subsection \<open>The softening table and the conversion formula\<close>


lemma softening_pos: "band \<in> set ''ugriz'' \<Longrightarrow> 0 < softening band"
  by (auto simp add: softening_def)

text \<open>
  As a function on the real numbers, the documented conversion is strictly decreasing in
  the flux. This is a property of the exact formula; the rounded values that the program
  computes are outside this model.
\<close>

lemma luptitude_strict_antimono:
  assumes "0 < b" "f1 < f2"
  shows "luptitude b f2 < luptitude b f1"
proof -
  have "f1 * (1 / 10 ^ 9) / (2 * b) < f2 * (1 / 10 ^ 9) / (2 * b)"
    using assms by (simp add: divide_strict_right_mono)
  then have "arsinh (f1 * (1 / 10 ^ 9) / (2 * b)) + ln b < arsinh (f2 * (1 / 10 ^ 9) / (2 * b)) + ln b"
    by (simp add: arsinh_less_iff_real del: times_divide_eq_left)
  moreover have "(- 2.5 / ln 10 :: real) < 0"
    by (simp add: divide_neg_pos)
  ultimately show ?thesis
    unfolding luptitude_def by (rule mult_strict_left_mono_neg)
qed

lemma luptitude_zero: "luptitude b 0 = (- 2.5 / ln 10) * ln b"
  by (simp add: luptitude_def)

subsection \<open>The errors of \<^verbatim>\<open>asinh_mag\<close>\<close>

lemma ext_ne_flux: "''extinction_'' @ [x] \<noteq> magtype @ ''flux_'' @ [y]"
proof
  assume "''extinction_'' @ [x] = magtype @ ''flux_'' @ [y]"
  then have "rev (''extinction_'' @ [x]) = rev (magtype @ ''flux_'' @ [y])"
    by (rule arg_cong)
  then show False by simp
qed

lemma ext_ne_mag: "''extinction_'' @ [x] \<noteq> magtype @ ''mag_'' @ [y]"
proof
  assume "''extinction_'' @ [x] = magtype @ ''mag_'' @ [y]"
  then have "rev (''extinction_'' @ [x]) = rev (magtype @ ''mag_'' @ [y])"
    by (rule arg_cong)
  then show False by simp
qed

lemma asinh_mag_Inl:
  assumes "asinh_mag data magtype bands deredden = Inl e"
    and "length bands = 5" and "distinct bands"
  shows "\<exists>band\<in>set bands.
      (e = NoField (magtype @ ''flux_'' @ [band]) \<and>
         magtype @ ''flux_'' @ [band] \<notin> set (names data)) \<or>
      (deredden \<and> e = NoField (''extinction_'' @ [band]) \<and>
         ''extinction_'' @ [band] \<notin> set (names data))"
proof -
  let ?mag0 = "\<lparr>names = map (\<lambda>band. magtype @ ''mag_'' @ [band]) bands,
             rows = replicate (length (rows data)) (\<lambda>f. 0)\<rparr>"
  have ne: "bands \<noteq> []" using assms(2) by auto
  then have hd: "hd bands \<in> set bands" by simp
  have len: "length (rows ?mag0) = length (rows data)" by simp
  have tbl: "map_of (b_table bands) [band] \<noteq> None" if "band \<in> set bands" for band
    unfolding b_table_def using assms(2) that
    by (intro map_of_zip_bands) (simp_all add: length_b_consts)
  show ?thesis
  proof (cases "magtype @ ''flux_'' @ [hd bands] \<in> set (names data)")
    case False
    with assms ne have "e = NoField (magtype @ ''flux_'' @ [hd bands])"
      by (simp add: asinh_mag_cases)
    with False hd show ?thesis by blast
  next
    case True
    with assms ne have "band_loop data magtype (b_table bands) deredden bands ?mag0 = Inl e"
      by (simp add: asinh_mag_cases)
    from band_loop_Inl [OF len this] tbl show ?thesis
      by (auto simp del: append.simps)
  qed
qed

lemma asinh_mag_Inl_no_deredden:
  assumes "asinh_mag data magtype bands False = Inl e"
  shows "e \<noteq> NoField (''extinction_'' @ [band])"
proof (cases "bands = []")
  case True
  with assms have "e = IndexError" by (simp add: asinh_mag_cases)
  then show ?thesis by simp
next
  case ne: False
  show ?thesis
  proof (cases "magtype @ ''flux_'' @ [hd bands] \<in> set (names data)")
    case False
    with assms ne have "e = NoField (magtype @ ''flux_'' @ [hd bands])"
      by (simp add: asinh_mag_cases)
    then show ?thesis using ext_ne_flux [of band magtype "hd bands"] by simp
  next
    case fl: True
    show ?thesis
    proof (cases "distinct bands")
      case False
      with assms ne fl have "e = DuplicateField" by (simp add: asinh_mag_cases)
      then show ?thesis by simp
    next
      case di: True
      show ?thesis
      proof (cases "length bands = 5")
        case False
        with assms ne fl di have "e = TupleLength 5 (length bands)" by (simp add: asinh_mag_cases)
        then show ?thesis by simp
      next
        case True
        let ?mag0 = "\<lparr>names = map (\<lambda>band. magtype @ ''mag_'' @ [band]) bands,
             rows = replicate (length (rows data)) (\<lambda>f. 0)\<rparr>"
        have len: "length (rows ?mag0) = length (rows data)" by simp
        from assms ne fl di True
        have "band_loop data magtype (b_table bands) False bands ?mag0 = Inl e"
          by (simp add: asinh_mag_cases)
        from band_loop_Inl [OF len this] obtain c where
          "e = NoField (magtype @ ''flux_'' @ [c]) \<or> e = NoField [c] \<or>
           e = NoField (magtype @ ''mag_'' @ [c])"
          by blast
        then show ?thesis
          using ext_ne_flux [of band magtype c] ext_ne_mag [of band magtype c] by auto
      qed
    qed
  qed
qed

subsection \<open>The default bands\<close>

lemma asinh_mag_ugriz_Inr:
  assumes "\<forall>band\<in>set ''ugriz''. magtype @ ''flux_'' @ [band] \<in> set (names data) \<and>
      (deredden \<longrightarrow> ''extinction_'' @ [band] \<in> set (names data))"
  shows "\<exists>mag. asinh_mag data magtype ''ugriz'' deredden = Inr mag"
  unfolding asinh_mag_Inr_iff using assms by simp


subsection \<open>Missing extinction columns, and the image path\<close>

text \<open>
  Claim C9. With dereddening requested and an extinction column of one of the five bands
  missing, \<^verbatim>\<open>asinh_mag\<close> (default bands) fails with the missing-field error of a field
  that the input lacks; for any bands, it returns magnitudes only if every requested
  band has its extinction column, so there is no partial output. Without dereddening the
  missing-field error of an extinction column never occurs, and the flux columns alone
  make the call return.
\<close>

theorem asinh_mag_deredden_missing:
  "((\<exists>band\<in>set ''ugriz''. ''extinction_'' @ [band] \<notin> set (names data)) \<longrightarrow>
      (\<exists>f. asinh_mag data magtype ''ugriz'' True = Inl (NoField f) \<and> f \<notin> set (names data))) \<and>
   (asinh_mag data magtype bands True = Inr mag \<longrightarrow>
      (\<forall>band\<in>set bands. ''extinction_'' @ [band] \<in> set (names data))) \<and>
   (\<forall>band. asinh_mag data magtype bands False \<noteq> Inl (NoField (''extinction_'' @ [band]))) \<and>
   ((\<forall>band\<in>set ''ugriz''. magtype @ ''flux_'' @ [band] \<in> set (names data)) \<longrightarrow>
      (\<exists>mag. asinh_mag data magtype ''ugriz'' False = Inr mag))"
proof (intro conjI impI allI)
  assume miss: "\<exists>band\<in>set ''ugriz''. ''extinction_'' @ [band] \<notin> set (names data)"
  have "\<not> (\<exists>mag. asinh_mag data magtype ''ugriz'' True = Inr mag)"
    unfolding asinh_mag_Inr_iff using miss by blast
  then obtain e where e: "asinh_mag data magtype ''ugriz'' True = Inl e"
    by (cases "asinh_mag data magtype ''ugriz'' True") auto
  from asinh_mag_Inl [OF e] obtain f where "e = NoField f" "f \<notin> set (names data)"
    by auto
  with e show "\<exists>f. asinh_mag data magtype ''ugriz'' True = Inl (NoField f) \<and> f \<notin> set (names data)"
    by blast
next
  assume "asinh_mag data magtype bands True = Inr mag"
  then show "\<forall>band\<in>set bands. ''extinction_'' @ [band] \<in> set (names data)"
    unfolding asinh_mag_Inr_iff by blast
next
  fix band
  show "asinh_mag data magtype bands False \<noteq> Inl (NoField (''extinction_'' @ [band]))"
    using asinh_mag_Inl_no_deredden [of data magtype bands _ band] by blast
next
  assume "\<forall>band\<in>set ''ugriz''. magtype @ ''flux_'' @ [band] \<in> set (names data)"
  then show "\<exists>mag. asinh_mag data magtype ''ugriz'' False = Inr mag"
    using asinh_mag_ugriz_Inr [of magtype data False] by blast
qed

theorem asinh_mag_deredden_missing_witness:
  "(\<exists>band\<in>set ''ugriz''. ''extinction_'' @ [band] \<notin> set (names zero_flux)) \<and>
   (\<exists>f. asinh_mag zero_flux ''model'' ''ugriz'' True = Inl (NoField f) \<and>
        f \<notin> set (names zero_flux)) \<and>
   (\<exists>mag. asinh_mag zero_flux ''model'' ''ugriz'' False = Inr mag)"
proof -
  have h: "\<exists>band\<in>set ''ugriz''. ''extinction_'' @ [band] \<notin> set (names zero_flux)"
    by (auto simp add: zero_flux_def)
  have k: "\<forall>band\<in>set ''ugriz''. ''model'' @ ''flux_'' @ [band] \<in> set (names zero_flux)"
    by (simp add: zero_flux_def)
  note t = asinh_mag_deredden_missing [of zero_flux "''model''"]
  from t [THEN conjunct1] h
  have 1: "\<exists>f. asinh_mag zero_flux ''model'' ''ugriz'' True = Inl (NoField f) \<and>
        f \<notin> set (names zero_flux)"
    by (rule mp)
  from t [THEN conjunct2, THEN conjunct2, THEN conjunct2] k
  have 2: "\<exists>mag. asinh_mag zero_flux ''model'' ''ugriz'' False = Inr mag"
    by (rule mp)
  from h 1 2 show ?thesis by (intro conjI)
qed




subsection \<open>Bands other than the default string\<close>

lemma asinh_mag_positional:
  assumes "asinh_mag data magtype bands deredden = Inr mag"
    and "k < 5" and "i < length (rows data)"
  shows "(rows mag ! i) (magtype @ ''mag_'' @ [bands ! k])
     = luptitude (b_consts ! k) ((rows data ! i) (magtype @ ''flux_'' @ [bands ! k]))
       - (if deredden then (rows data ! i) (''extinction_'' @ [bands ! k]) else 0)"
proof -
  from assms(1) have len: "length bands = 5" and dis: "distinct bands"
    unfolding asinh_mag_Inr_iff by simp_all
  have band: "bands ! k \<in> set bands" using len assms(2) by simp
  have "map_of (zip (map (\<lambda>band. [band]) bands) b_consts) (map (\<lambda>band. [band]) bands ! k)
      = Some (b_consts ! k)"
    using len dis assms(2)
    by (intro map_of_zip_nth) (simp_all add: length_b_consts distinct_band_names)
  then have "map_of (b_table bands) [bands ! k] = Some (b_consts ! k)"
    using len assms(2) by (simp add: b_table_def)
  then show ?thesis
    unfolding asinh_mag_cell [OF assms(1) band assms(3)] band_value_def by simp
qed

lemma luptitude_zero_ne:
  assumes "0 < a" "0 < b" "a \<noteq> b"
  shows "luptitude a 0 \<noteq> luptitude b 0"
proof -
  have "ln a \<noteq> ln b" using assms by simp
  moreover have "(- 2.5 / ln 10 :: real) \<noteq> 0" by simp
  ultimately show ?thesis by (simp add: luptitude_zero)
qed

text \<open>
  Claim C4, at inputs where the code departs from it. Asked for the bands \<open>gri\<close>,
  \<^verbatim>\<open>asinh_mag\<close> raises the tuple-length error instead of returning magnitudes. Asked for
  the five bands in the order \<open>griuz\<close> on zero flux, it returns for band \<open>g\<close> the magnitude
  \<open>(-2.5/ln 10) * ln (1.4e-10)\<close>, computed with the softening parameter of \<open>u\<close>, which is
  not \<open>(-2.5/ln 10) * ln b\<close> for the softening parameter \<open>b\<close> of \<open>g\<close>.
\<close>

theorem asinh_mag_requested_bands_diverge:
  "asinh_mag zero_flux ''model'' ''gri'' False = Inl (TupleLength 5 3) \<and>
   (\<exists>mag. asinh_mag zero_flux ''model'' ''griuz'' False = Inr mag \<and>
      (rows mag ! 0) ''modelmag_g'' = (- 2.5 / ln 10) * ln (1.4 / 10 ^ 10) \<and>
      (rows mag ! 0) ''modelmag_g'' \<noteq> (- 2.5 / ln 10) * ln (softening (CHR ''g'')))"
proof (intro conjI)
  show "asinh_mag zero_flux ''model'' ''gri'' False = Inl (TupleLength 5 3)"
    by (simp add: asinh_mag_cases zero_flux_def)
  obtain mag where m: "asinh_mag zero_flux ''model'' ''griuz'' False = Inr mag"
    unfolding asinh_mag_Inr_iff by (simp add: zero_flux_def)
  have i: "0 < length (rows zero_flux)" by (simp add: zero_flux_def)
  have "(rows mag ! 0) (''model'' @ ''mag_'' @ [''griuz'' ! 0])
      = luptitude (b_consts ! 0) ((rows zero_flux ! 0) (''model'' @ ''flux_'' @ [''griuz'' ! 0])) - 0"
    using asinh_mag_positional [OF m _ i, of 0] by simp
  then have c: "(rows mag ! 0) ''modelmag_g'' = luptitude (1.4 / 10 ^ 10) 0"
    by (simp add: b_consts_def zero_flux_def)
  have "luptitude (1.4 / 10 ^ 10) 0 \<noteq> luptitude (softening (CHR ''g'')) 0"
    by (rule luptitude_zero_ne) (simp_all add: softening_def)
  then have ne: "(- 2.5 / ln 10) * ln (1.4 / 10 ^ 10) \<noteq> (- 2.5 / ln 10) * ln (softening (CHR ''g''))"
    unfolding luptitude_zero .
  have c': "(rows mag ! 0) ''modelmag_g'' = (- 2.5 / ln 10) * ln (1.4 / 10 ^ 10)"
    using c unfolding luptitude_zero .
  have "(rows mag ! 0) ''modelmag_g'' \<noteq> (- 2.5 / ln 10) * ln (softening (CHR ''g''))"
    unfolding c' by (rule ne)
  with m c' have "asinh_mag zero_flux ''model'' ''griuz'' False = Inr mag \<and>
      (rows mag ! 0) ''modelmag_g'' = (- 2.5 / ln 10) * ln (1.4 / 10 ^ 10) \<and>
      (rows mag ! 0) ''modelmag_g'' \<noteq> (- 2.5 / ln 10) * ln (softening (CHR ''g''))"
    by (intro conjI)
  then show "\<exists>mag. asinh_mag zero_flux ''model'' ''griuz'' False = Inr mag \<and>
      (rows mag ! 0) ''modelmag_g'' = (- 2.5 / ln 10) * ln (1.4 / 10 ^ 10) \<and>
      (rows mag ! 0) ''modelmag_g'' \<noteq> (- 2.5 / ln 10) * ln (softening (CHR ''g''))"
    by (intro exI [of _ mag])
qed

text \<open>
  Claim C6, at inputs where the code departs from it. With \<open>bands = 'r'\<close> alone,
  \<^verbatim>\<open>asinh_mag\<close> raises the tuple-length error; with the five bands in the order \<open>rgiuz\<close>
  it applies \<open>1.4e-10\<close>, not \<open>1.2e-10\<close>, to band \<open>r\<close>: the constants go to the bands by
  position in \<open>bands\<close>.
\<close>

theorem asinh_mag_softening_by_position:
  "asinh_mag zero_flux ''model'' ''r'' False = Inl (TupleLength 5 1) \<and>
   (\<exists>mag. asinh_mag zero_flux ''model'' ''rgiuz'' False = Inr mag \<and>
      (rows mag ! 0) ''modelmag_r'' = luptitude (1.4 / 10 ^ 10) 0 \<and>
      luptitude (1.4 / 10 ^ 10) 0 \<noteq> luptitude (1.2 / 10 ^ 10) 0)"
proof (intro conjI)
  show "asinh_mag zero_flux ''model'' ''r'' False = Inl (TupleLength 5 1)"
    by (simp add: asinh_mag_cases zero_flux_def)
  obtain mag where m: "asinh_mag zero_flux ''model'' ''rgiuz'' False = Inr mag"
    unfolding asinh_mag_Inr_iff by (simp add: zero_flux_def)
  have i: "0 < length (rows zero_flux)" by (simp add: zero_flux_def)
  have "(rows mag ! 0) (''model'' @ ''mag_'' @ [''rgiuz'' ! 0])
      = luptitude (b_consts ! 0) ((rows zero_flux ! 0) (''model'' @ ''flux_'' @ [''rgiuz'' ! 0])) - 0"
    using asinh_mag_positional [OF m _ i, of 0] by simp
  then have c: "(rows mag ! 0) ''modelmag_r'' = luptitude (1.4 / 10 ^ 10) 0"
    by (simp add: b_consts_def zero_flux_def)
  have "luptitude (1.4 / 10 ^ 10) 0 \<noteq> luptitude (1.2 / 10 ^ 10) 0"
    by (rule luptitude_zero_ne) simp_all
  then have "asinh_mag zero_flux ''model'' ''rgiuz'' False = Inr mag \<and>
      (rows mag ! 0) ''modelmag_r'' = luptitude (1.4 / 10 ^ 10) 0 \<and>
      luptitude (1.4 / 10 ^ 10) 0 \<noteq> luptitude (1.2 / 10 ^ 10) 0"
    using m c by (intro conjI)
  then show "\<exists>mag. asinh_mag zero_flux ''model'' ''rgiuz'' False = Inr mag \<and>
      (rows mag ! 0) ''modelmag_r'' = luptitude (1.4 / 10 ^ 10) 0 \<and>
      luptitude (1.4 / 10 ^ 10) 0 \<noteq> luptitude (1.2 / 10 ^ 10) 0"
    by (intro exI [of _ mag])
qed

section \<open>Properties of \<^verbatim>\<open>auxilliary_colors\<close>\<close>

subsection \<open>The result of \<^verbatim>\<open>auxilliary_colors\<close>\<close>

lemma vsub_map: "vsub (map f xs) (map g xs) = map (\<lambda>x. f x - g x) xs"
  by (induction xs) (simp_all add: vsub_def)

lemma vadd_map: "vadd (map f xs) (map g xs) = map (\<lambda>x. f x + g x) xs"
  by (induction xs) (simp_all add: vadd_def)

lemma smul_map: "smul c (map f xs) = map (\<lambda>x. c * f x) xs"
  by (simp add: smul_def)

lemma ssub_map: "ssub (map f xs) c = map (\<lambda>x. f x - c) xs"
  by (simp add: ssub_def)

lemma sdiv_map: "sdiv (map f xs) c = map (\<lambda>x. f x / c) xs"
  by (simp add: sdiv_def)

lemma map2_map_left: "map2 F (map G ys) ys = map (\<lambda>y. F (G y) y) ys"
  by (induction ys) simp_all

lemmas vec_map = vsub_map vadd_map smul_map ssub_map sdiv_map

lemma np_zeros_aux:
  "np_zeros n [''c_par'', ''c_perp'', ''d_perp'']
     = Inr \<lparr>names = [''c_par'', ''c_perp'', ''d_perp''], rows = replicate n (\<lambda>f. 0)\<rparr>"
  by (simp add: np_zeros_def np_dtype_def)

lemma auxilliary_colors_present:
  assumes "bands \<noteq> []"
    and "''modelmag_'' @ [hd bands] \<in> set (names data)"
    and "''modelmag_g'' \<in> set (names data)"
    and "''modelmag_r'' \<in> set (names data)"
    and "''modelmag_i'' \<in> set (names data)"
  shows "auxilliary_colors data bands
     = Inr \<lparr>names = [''c_par'', ''c_perp'', ''d_perp''], rows = map aux_row (rows data)\<rparr>"
proof -
  let ?aux = "\<lparr>names = [''c_par'', ''c_perp'', ''d_perp''],
               rows = replicate (length (rows data)) (\<lambda>f. 0)\<rparr>"
  let ?cpar = "\<lambda>rd. 0.7 * (rd ''modelmag_g'' - rd ''modelmag_r'')
                            + 1.2 * (rd ''modelmag_r'' - rd ''modelmag_i'' - 0.18 :: real)"
  let ?cperp = "\<lambda>rd. (rd ''modelmag_r'' - rd ''modelmag_i'')
                            - (rd ''modelmag_g'' - rd ''modelmag_r'') / 4.0 - (0.18 :: real)"
  let ?dperp = "\<lambda>rd. (rd ''modelmag_r'' - rd ''modelmag_i'')
                            - (rd ''modelmag_g'' - rd ''modelmag_r'') / (8.0 :: real)"
  let ?aux1 = "?aux\<lparr>rows := map2 (\<lambda>r rd. r(''c_par'' := ?cpar rd)) (rows ?aux) (rows data)\<rparr>"
  let ?aux2 = "?aux1\<lparr>rows := map2 (\<lambda>r rd. r(''c_perp'' := ?cperp rd)) (rows ?aux1) (rows data)\<rparr>"
  let ?aux3 = "?aux2\<lparr>rows := map2 (\<lambda>r rd. r(''d_perp'' := ?dperp rd)) (rows ?aux2) (rows data)\<rparr>"
  have s1: "setfield ?aux ''c_par'' (map ?cpar (rows data)) = Inr ?aux1"
    by (rule setfield_map) simp_all
  have s2: "setfield ?aux1 ''c_perp'' (map ?cperp (rows data)) = Inr ?aux2"
    by (rule setfield_map) simp_all
  have s3: "setfield ?aux2 ''d_perp'' (map ?dperp (rows data)) = Inr ?aux3"
    by (rule setfield_map) simp_all
  have r3: "?aux3 = \<lparr>names = [''c_par'', ''c_perp'', ''d_perp''], rows = map aux_row (rows data)\<rparr>"
    by (simp add: map2_map_left map2_replicate_left aux_row_def)
  obtain band0 rest where b: "bands = band0 # rest"
    using assms(1) by (cases bands) auto
  have g0: "getfield data (''modelmag_'' @ [band0]) = Inr (map (\<lambda>r. r (''modelmag_'' @ [band0])) (rows data))"
    using assms(2) b by (simp add: getfield_def)
  show ?thesis
    unfolding auxilliary_colors_def b list.case g0 sum.case np_zeros_aux
      getfield_in [OF assms(3)] getfield_in [OF assms(4)] getfield_in [OF assms(5)]
      vec_map s1 s2 s3 r3 ..
qed

lemma auxilliary_colors_cases:
  "auxilliary_colors data bands =
    (if bands = [] then Inl IndexError
     else if ''modelmag_'' @ [hd bands] \<notin> set (names data)
       then Inl (NoField (''modelmag_'' @ [hd bands]))
     else if ''modelmag_g'' \<notin> set (names data) then Inl (NoField ''modelmag_g'')
     else if ''modelmag_r'' \<notin> set (names data) then Inl (NoField ''modelmag_r'')
     else if ''modelmag_i'' \<notin> set (names data) then Inl (NoField ''modelmag_i'')
     else Inr \<lparr>names = [''c_par'', ''c_perp'', ''d_perp''], rows = map aux_row (rows data)\<rparr>)"
proof (cases "bands \<noteq> [] \<and> ''modelmag_'' @ [hd bands] \<in> set (names data) \<and>
    ''modelmag_g'' \<in> set (names data) \<and> ''modelmag_r'' \<in> set (names data) \<and>
    ''modelmag_i'' \<in> set (names data)")
  case True
  then show ?thesis using auxilliary_colors_present [of bands data] by simp
next
  case False
  then show ?thesis
    by (auto simp add: auxilliary_colors_def list.case_eq_if getfield_def np_zeros_aux)
qed

subsection \<open>The formulas and the fields required\<close>

lemma aux_row_values:
  "aux_row rd ''c_par'' = 0.7 * (rd ''modelmag_g'' - rd ''modelmag_r'')
                            + 1.2 * (rd ''modelmag_r'' - rd ''modelmag_i'' - 0.18)"
  "aux_row rd ''c_perp'' = (rd ''modelmag_r'' - rd ''modelmag_i'')
                            - (rd ''modelmag_g'' - rd ''modelmag_r'') / 4 - 0.18"
  "aux_row rd ''d_perp'' = (rd ''modelmag_r'' - rd ''modelmag_i'')
                            - (rd ''modelmag_g'' - rd ''modelmag_r'') / 8"
  by (simp_all add: aux_row_def)

lemma auxilliary_colors_Inr:
  assumes "auxilliary_colors data bands = Inr aux"
  shows "aux = \<lparr>names = [''c_par'', ''c_perp'', ''d_perp''], rows = map aux_row (rows data)\<rparr>"
  using assms unfolding auxilliary_colors_cases by (simp split: if_splits)

lemma auxilliary_colors_example:
  "auxilliary_colors example_mags ''ugriz''
     = Inr \<lparr>names = [''c_par'', ''c_perp'', ''d_perp''],
            rows = [(\<lambda>f. 0)(''c_par'' := 1.084, ''c_perp'' := 0.07, ''d_perp'' := 0.375)]\<rparr>"
  unfolding auxilliary_colors_cases by (simp add: example_mags_def aux_row_def)

text \<open>
  Claim C7. Whenever \<^verbatim>\<open>auxilliary_colors\<close> returns, it returns one row per input row with
  \<open>c_par = 0.7*(g-r) + 1.2*(r-i-0.18)\<close>, \<open>c_perp = (r-i) - (g-r)/4 - 0.18\<close> and
  \<open>d_perp = (r-i) - (g-r)/8\<close> of that row's model magnitudes; it returns when the fields it
  reads are present; and for \<open>g = 20.0, r = 19.0, i = 18.5\<close> the triple is
  \<open>1.084, 0.07, 0.375\<close>.
\<close>

theorem auxilliary_colors_formulas:
  "(auxilliary_colors data bands = Inr aux \<longrightarrow>
      length (rows aux) = length (rows data) \<and>
      (\<forall>i<length (rows data).
         (rows aux ! i) ''c_par''
           = 0.7 * ((rows data ! i) ''modelmag_g'' - (rows data ! i) ''modelmag_r'')
             + 1.2 * ((rows data ! i) ''modelmag_r'' - (rows data ! i) ''modelmag_i'' - 0.18) \<and>
         (rows aux ! i) ''c_perp''
           = ((rows data ! i) ''modelmag_r'' - (rows data ! i) ''modelmag_i'')
             - ((rows data ! i) ''modelmag_g'' - (rows data ! i) ''modelmag_r'') / 4 - 0.18 \<and>
         (rows aux ! i) ''d_perp''
           = ((rows data ! i) ''modelmag_r'' - (rows data ! i) ''modelmag_i'')
             - ((rows data ! i) ''modelmag_g'' - (rows data ! i) ''modelmag_r'') / 8)) \<and>
   (bands \<noteq> [] \<and> ''modelmag_'' @ [hd bands] \<in> set (names data) \<and>
      ''modelmag_g'' \<in> set (names data) \<and> ''modelmag_r'' \<in> set (names data) \<and>
      ''modelmag_i'' \<in> set (names data) \<longrightarrow>
    (\<exists>aux. auxilliary_colors data bands = Inr aux)) \<and>
   auxilliary_colors example_mags ''ugriz''
     = Inr \<lparr>names = [''c_par'', ''c_perp'', ''d_perp''],
            rows = [(\<lambda>f. 0)(''c_par'' := 1.084, ''c_perp'' := 0.07, ''d_perp'' := 0.375)]\<rparr>"
proof (intro conjI impI)
  assume a: "auxilliary_colors data bands = Inr aux"
  from auxilliary_colors_Inr [OF a]
  show "length (rows aux) = length (rows data)" by simp
  from auxilliary_colors_Inr [OF a]
  have "rows aux ! i = aux_row (rows data ! i)" if "i < length (rows data)" for i
    using that by simp
  then show "\<forall>i<length (rows data).
         (rows aux ! i) ''c_par''
           = 0.7 * ((rows data ! i) ''modelmag_g'' - (rows data ! i) ''modelmag_r'')
             + 1.2 * ((rows data ! i) ''modelmag_r'' - (rows data ! i) ''modelmag_i'' - 0.18) \<and>
         (rows aux ! i) ''c_perp''
           = ((rows data ! i) ''modelmag_r'' - (rows data ! i) ''modelmag_i'')
             - ((rows data ! i) ''modelmag_g'' - (rows data ! i) ''modelmag_r'') / 4 - 0.18 \<and>
         (rows aux ! i) ''d_perp''
           = ((rows data ! i) ''modelmag_r'' - (rows data ! i) ''modelmag_i'')
             - ((rows data ! i) ''modelmag_g'' - (rows data ! i) ''modelmag_r'') / 8"
    by (simp add: aux_row_values)
next
  assume "bands \<noteq> [] \<and> ''modelmag_'' @ [hd bands] \<in> set (names data) \<and>
      ''modelmag_g'' \<in> set (names data) \<and> ''modelmag_r'' \<in> set (names data) \<and>
      ''modelmag_i'' \<in> set (names data)"
  then show "\<exists>aux. auxilliary_colors data bands = Inr aux"
    using auxilliary_colors_present [of bands data] by simp
next
  show "auxilliary_colors example_mags ''ugriz''
     = Inr \<lparr>names = [''c_par'', ''c_perp'', ''d_perp''],
            rows = [(\<lambda>f. 0)(''c_par'' := 1.084, ''c_perp'' := 0.07, ''d_perp'' := 0.375)]\<rparr>"
    by (rule auxilliary_colors_example)
qed

theorem auxilliary_colors_formulas_witness:
  "\<exists>aux. auxilliary_colors gri_only ''gri'' = Inr aux \<and>
     length (rows aux) = 1 \<and>
     (rows aux ! 0) ''c_par'' = 1.084 \<and>
     (rows aux ! 0) ''c_perp'' = 0.07 \<and>
     (rows aux ! 0) ''d_perp'' = 0.375"
proof -
  note t = auxilliary_colors_formulas [of gri_only "''gri''"]
  have "''gri'' \<noteq> [] \<and> ''modelmag_'' @ [hd ''gri''] \<in> set (names gri_only) \<and>
      ''modelmag_g'' \<in> set (names gri_only) \<and> ''modelmag_r'' \<in> set (names gri_only) \<and>
      ''modelmag_i'' \<in> set (names gri_only)"
    by (simp add: gri_only_def)
  with t [THEN conjunct2, THEN conjunct1]
  obtain aux where a: "auxilliary_colors gri_only ''gri'' = Inr aux"
    by blast
  from auxilliary_colors_formulas [of gri_only "''gri''" aux, THEN conjunct1] a
  have "length (rows aux) = length (rows gri_only) \<and>
      (\<forall>i<length (rows gri_only).
         (rows aux ! i) ''c_par''
           = 0.7 * ((rows gri_only ! i) ''modelmag_g'' - (rows gri_only ! i) ''modelmag_r'')
             + 1.2 * ((rows gri_only ! i) ''modelmag_r'' - (rows gri_only ! i) ''modelmag_i'' - 0.18) \<and>
         (rows aux ! i) ''c_perp''
           = ((rows gri_only ! i) ''modelmag_r'' - (rows gri_only ! i) ''modelmag_i'')
             - ((rows gri_only ! i) ''modelmag_g'' - (rows gri_only ! i) ''modelmag_r'') / 4 - 0.18 \<and>
         (rows aux ! i) ''d_perp''
           = ((rows gri_only ! i) ''modelmag_r'' - (rows gri_only ! i) ''modelmag_i'')
             - ((rows gri_only ! i) ''modelmag_g'' - (rows gri_only ! i) ''modelmag_r'') / 8)"
    by (rule mp)
  then have "length (rows aux) = 1 \<and>
     (rows aux ! 0) ''c_par'' = 1.084 \<and>
     (rows aux ! 0) ''c_perp'' = 0.07 \<and>
     (rows aux ! 0) ''d_perp'' = 0.375"
    by (simp add: gri_only_def)
  with a show ?thesis by (intro exI [of _ aux] conjI) simp_all
qed

text \<open>
  Claim C8 as stated fails: an input that has the fields \<open>modelmag_g\<close>, \<open>modelmag_r\<close> and
  \<open>modelmag_i\<close> and no other makes the call with default arguments fail, because the
  dtype is read from the field of the first band, \<open>modelmag_u\<close>.
\<close>

theorem auxilliary_colors_gri_only_fails:
  "''modelmag_g'' \<in> set (names gri_only) \<and> ''modelmag_r'' \<in> set (names gri_only) \<and>
   ''modelmag_i'' \<in> set (names gri_only) \<and>
   auxilliary_colors gri_only ''ugriz'' = Inl (NoField ''modelmag_u'')"
  unfolding auxilliary_colors_cases by (simp add: gri_only_def)

text \<open>
  Claim C8, amended. \<^verbatim>\<open>auxilliary_colors\<close> returns if and only if \<open>bands\<close> is not empty and
  the input has the model magnitude of the first band of \<open>bands\<close> and those of \<open>g\<close>, \<open>r\<close>
  and \<open>i\<close>. With the default arguments it returns exactly when \<open>modelmag_u\<close>,
  \<open>modelmag_g\<close>, \<open>modelmag_r\<close> and \<open>modelmag_i\<close> are present, and otherwise fails with the
  missing-field error of one of these four that the input lacks; it has no other error.
\<close>

theorem auxilliary_colors_required_fields:
  "((\<exists>aux. auxilliary_colors data bands = Inr aux) =
      (bands \<noteq> [] \<and> ''modelmag_'' @ [hd bands] \<in> set (names data) \<and>
       ''modelmag_g'' \<in> set (names data) \<and> ''modelmag_r'' \<in> set (names data) \<and>
       ''modelmag_i'' \<in> set (names data))) \<and>
   ((\<exists>aux. auxilliary_colors data ''ugriz'' = Inr aux) =
      (''modelmag_u'' \<in> set (names data) \<and> ''modelmag_g'' \<in> set (names data) \<and>
       ''modelmag_r'' \<in> set (names data) \<and> ''modelmag_i'' \<in> set (names data))) \<and>
   (\<forall>e. auxilliary_colors data ''ugriz'' = Inl e \<longrightarrow>
      (\<exists>f\<in>set [''modelmag_u'', ''modelmag_g'', ''modelmag_r'', ''modelmag_i''].
          e = NoField f \<and> f \<notin> set (names data)))"
proof (intro conjI allI impI)
  show "(\<exists>aux. auxilliary_colors data bands = Inr aux) =
      (bands \<noteq> [] \<and> ''modelmag_'' @ [hd bands] \<in> set (names data) \<and>
       ''modelmag_g'' \<in> set (names data) \<and> ''modelmag_r'' \<in> set (names data) \<and>
       ''modelmag_i'' \<in> set (names data))"
    unfolding auxilliary_colors_cases by simp
  show "(\<exists>aux. auxilliary_colors data ''ugriz'' = Inr aux) =
      (''modelmag_u'' \<in> set (names data) \<and> ''modelmag_g'' \<in> set (names data) \<and>
       ''modelmag_r'' \<in> set (names data) \<and> ''modelmag_i'' \<in> set (names data))"
    unfolding auxilliary_colors_cases by simp
next
  fix e assume "auxilliary_colors data ''ugriz'' = Inl e"
  then show "\<exists>f\<in>set [''modelmag_u'', ''modelmag_g'', ''modelmag_r'', ''modelmag_i''].
          e = NoField f \<and> f \<notin> set (names data)"
    unfolding auxilliary_colors_cases by (auto split: if_splits)
qed

theorem auxilliary_colors_required_fields_witness:
  "(\<exists>aux. auxilliary_colors example_mags ''ugriz'' = Inr aux) \<and>
   (\<exists>f. auxilliary_colors gri_only ''ugriz'' = Inl (NoField f) \<and> f \<notin> set (names gri_only))"
proof -
  have "''modelmag_u'' \<in> set (names example_mags) \<and> ''modelmag_g'' \<in> set (names example_mags) \<and>
       ''modelmag_r'' \<in> set (names example_mags) \<and> ''modelmag_i'' \<in> set (names example_mags)"
    by (simp add: example_mags_def)
  with auxilliary_colors_required_fields [of example_mags, THEN conjunct2, THEN conjunct1]
  have 1: "\<exists>aux. auxilliary_colors example_mags ''ugriz'' = Inr aux"
    by (rule iffD2)
  have "\<not> (''modelmag_u'' \<in> set (names gri_only) \<and> ''modelmag_g'' \<in> set (names gri_only) \<and>
       ''modelmag_r'' \<in> set (names gri_only) \<and> ''modelmag_i'' \<in> set (names gri_only))"
    by (simp add: gri_only_def)
  with auxilliary_colors_required_fields [of gri_only, THEN conjunct2, THEN conjunct1]
  have "\<not> (\<exists>aux. auxilliary_colors gri_only ''ugriz'' = Inr aux)"
    by simp
  then obtain e where e: "auxilliary_colors gri_only ''ugriz'' = Inl e"
    by (cases "auxilliary_colors gri_only ''ugriz''") auto
  with auxilliary_colors_required_fields [of gri_only, THEN conjunct2, THEN conjunct2]
  obtain f where "e = NoField f" "f \<notin> set (names gri_only)"
    by blast
  with e 1 show ?thesis by blast
qed

end
